theory Spec2Isabelle
  imports Main "HOL-Library.Word"
begin

unbundle bit_operations_syntax

section \<open>Sony IMX708 sensor driver: data model\<close>

text \<open>
  A shallow embedding of \<^verbatim>\<open>drivers/media/i2c/imx708.c\<close>. C integers keep their width:
  \<^verbatim>\<open>unsigned int\<close>, \<^verbatim>\<open>u32\<close> and \<^verbatim>\<open>int\<close>/\<^verbatim>\<open>s32\<close> are 32-bit words (read with \<open>unat\<close> or
  \<open>sint\<close>), so that every wrap-around of the C arithmetic is a wrap-around of the model.
  Return codes are \<open>int\<close>: 0 for success, a negated errno for failure, as in the source.
\<close>

type_synonym u8 = "8 word"
type_synonym u16 = "16 word"
type_synonym u32 = "32 word"
type_synonym s32 = "32 word"
type_synonym u64 = "64 word"

subsection \<open>Constants of the driver\<close>

definition IMX708_REG_VALUE_08BIT :: nat where "IMX708_REG_VALUE_08BIT = 1"
definition IMX708_REG_VALUE_16BIT :: nat where "IMX708_REG_VALUE_16BIT = 2"


definition IMX708_REG_MODE_SELECT :: u16 where "IMX708_REG_MODE_SELECT = 0x0100"
definition IMX708_MODE_STANDBY :: u32 where "IMX708_MODE_STANDBY = 0x00"
definition IMX708_MODE_STREAMING :: u32 where "IMX708_MODE_STREAMING = 0x01"

definition IMX708_REG_ORIENTATION :: u16 where "IMX708_REG_ORIENTATION = 0x101"


definition IMX708_REG_FRAME_LENGTH :: u16 where "IMX708_REG_FRAME_LENGTH = 0x0340"
definition IMX708_FRAME_LENGTH_MAX :: u32 where "IMX708_FRAME_LENGTH_MAX = 0xffff"

definition IMX708_LONG_EXP_SHIFT_MAX :: nat where "IMX708_LONG_EXP_SHIFT_MAX = 7"
definition IMX708_LONG_EXP_SHIFT_REG :: u16 where "IMX708_LONG_EXP_SHIFT_REG = 0x3100"

definition IMX708_REG_EXPOSURE :: u16 where "IMX708_REG_EXPOSURE = 0x0202"
definition IMX708_EXPOSURE_OFFSET :: u32 where "IMX708_EXPOSURE_OFFSET = 48"

definition IMX708_REG_ANALOG_GAIN :: u16 where "IMX708_REG_ANALOG_GAIN = 0x0204"

definition IMX708_REG_DIGITAL_GAIN :: u16 where "IMX708_REG_DIGITAL_GAIN = 0x020e"

definition IMX708_REG_TEST_PATTERN :: u16 where "IMX708_REG_TEST_PATTERN = 0x0600"
definition IMX708_TEST_PATTERN_DISABLE :: u32 where "IMX708_TEST_PATTERN_DISABLE = 0"
definition IMX708_TEST_PATTERN_SOLID_COLOR :: u32 where "IMX708_TEST_PATTERN_SOLID_COLOR = 1"
definition IMX708_TEST_PATTERN_COLOR_BARS :: u32 where "IMX708_TEST_PATTERN_COLOR_BARS = 2"
definition IMX708_TEST_PATTERN_GREY_COLOR :: u32 where "IMX708_TEST_PATTERN_GREY_COLOR = 3"
definition IMX708_TEST_PATTERN_PN9 :: u32 where "IMX708_TEST_PATTERN_PN9 = 4"

definition IMX708_REG_TEST_PATTERN_R :: u16 where "IMX708_REG_TEST_PATTERN_R = 0x0602"
definition IMX708_REG_TEST_PATTERN_GR :: u16 where "IMX708_REG_TEST_PATTERN_GR = 0x0604"
definition IMX708_REG_TEST_PATTERN_B :: u16 where "IMX708_REG_TEST_PATTERN_B = 0x0606"
definition IMX708_REG_TEST_PATTERN_GB :: u16 where "IMX708_REG_TEST_PATTERN_GB = 0x0608"

definition IMX708_REG_BASE_SPC_GAINS_L :: u16 where "IMX708_REG_BASE_SPC_GAINS_L = 0x7b10"
definition IMX708_REG_BASE_SPC_GAINS_R :: u16 where "IMX708_REG_BASE_SPC_GAINS_R = 0x7c00"

definition IMX708_HDR_EXPOSURE_RATIO :: "'a::len word" where "IMX708_HDR_EXPOSURE_RATIO = 4"

definition IMX708_PIXEL_ARRAY_LEFT :: u32 where "IMX708_PIXEL_ARRAY_LEFT = 16"
definition IMX708_PIXEL_ARRAY_TOP :: u32 where "IMX708_PIXEL_ARRAY_TOP = 24"

text \<open>
  Modelled from the spec: the errno values, the media-bus format code and the HDR variant
  tags are declared in kernel headers (\<^verbatim>\<open>errno-base.h\<close>, \<^verbatim>\<open>media-bus-format.h\<close>,
  \<^verbatim>\<open>rk-camera-module.h\<close>) that are not part of the source file. The spec names an
  invalid-argument condition, a transport I/O error, a format code and an HDR variant that
  is either none or a fixed-ratio variant; the numbers below are the ones of those headers,
  and the proofs use only that they are distinct and non-zero.
\<close>

definition EIO :: int where "EIO = 5"
definition EINVAL :: int where "EINVAL = 22"
definition ENOIOCTLCMD :: int where "ENOIOCTLCMD = 515"

definition MEDIA_BUS_FMT_SRGGB10_1X10 :: u32 where "MEDIA_BUS_FMT_SRGGB10_1X10 = 0x300f"

definition NO_HDR :: u32 where "NO_HDR = 0"
definition HDR_X2 :: u32 where "HDR_X2 = 5"
definition HDR_X3 :: u32 where "HDR_X3 = 6"

subsection \<open>Register lists\<close>

text \<open>\<^verbatim>\<open>struct imx708_reg\<close>: a 16-bit address and the byte to store there. A
  \<^verbatim>\<open>struct imx708_reg_list\<close> (a pointer and \<^verbatim>\<open>num_of_regs\<close>) is the list itself.\<close>

type_synonym imx708_reg = "u16 \<times> u8"

definition pdaf_gains :: "u8 list list" where
  "pdaf_gains = [
    [0x4c, 0x4c, 0x4c, 0x46, 0x3e, 0x38, 0x35, 0x35, 0x35],
    [0x35, 0x35, 0x35, 0x38, 0x3e, 0x46, 0x4c, 0x4c, 0x4c]]"


definition link_450Mhz_regs :: "imx708_reg list" where
  "link_450Mhz_regs = [
    (0x030E, 0x01), (0x030F, 0x2C)]"

definition link_447Mhz_regs :: "imx708_reg list" where
  "link_447Mhz_regs = [
    (0x030E, 0x01), (0x030F, 0x2A)]"

definition link_453Mhz_regs :: "imx708_reg list" where
  "link_453Mhz_regs = [
    (0x030E, 0x01), (0x030F, 0x2E)]"

definition mode_common_regs :: "imx708_reg list" where
  "mode_common_regs = [
    (0x0100, 0x00), (0x0136, 0x18), (0x0137, 0x00), (0x33F0, 0x02), (0x33F1, 0x05),
    (0x3062, 0x00), (0x3063, 0x12), (0x3068, 0x00), (0x3069, 0x12), (0x306A, 0x00),
    (0x306B, 0x30), (0x3076, 0x00), (0x3077, 0x30), (0x3078, 0x00), (0x3079, 0x30),
    (0x5E54, 0x0C), (0x6E44, 0x00), (0xB0B6, 0x01), (0xE829, 0x00), (0xF001, 0x08),
    (0xF003, 0x08), (0xF00D, 0x10), (0xF00F, 0x10), (0xF031, 0x08), (0xF033, 0x08),
    (0xF03D, 0x10), (0xF03F, 0x10), (0x0112, 0x0A), (0x0113, 0x0A), (0x0114, 0x01),
    (0x0B8E, 0x01), (0x0B8F, 0x00), (0x0B94, 0x01), (0x0B95, 0x00), (0x3400, 0x01),
    (0x3478, 0x01), (0x3479, 0x1C), (0x3091, 0x01), (0x3092, 0x00), (0x3419, 0x00),
    (0xBCF1, 0x02), (0x3094, 0x01), (0x3095, 0x01), (0x3362, 0x00), (0x3363, 0x00),
    (0x3364, 0x00), (0x3365, 0x00), (0x0138, 0x01)]"

definition mode_4608x2592_regs :: "imx708_reg list" where
  "mode_4608x2592_regs = [
    (0x0342, 0x3D), (0x0343, 0x20), (0x0340, 0x0A), (0x0341, 0x59), (0x0344, 0x00),
    (0x0345, 0x00), (0x0346, 0x00), (0x0347, 0x00), (0x0348, 0x11), (0x0349, 0xFF),
    (0x034A, 0x0A), (0x034B, 0x1F), (0x0220, 0x62), (0x0222, 0x01), (0x0900, 0x00),
    (0x0901, 0x11), (0x0902, 0x0A), (0x3200, 0x01), (0x3201, 0x01), (0x32D5, 0x01),
    (0x32D6, 0x00), (0x32DB, 0x01), (0x32DF, 0x00), (0x350C, 0x00), (0x350D, 0x00),
    (0x0408, 0x00), (0x0409, 0x00), (0x040A, 0x00), (0x040B, 0x00), (0x040C, 0x12),
    (0x040D, 0x00), (0x040E, 0x0A), (0x040F, 0x20), (0x034C, 0x12), (0x034D, 0x00),
    (0x034E, 0x0A), (0x034F, 0x20), (0x0301, 0x05), (0x0303, 0x02), (0x0305, 0x02),
    (0x0306, 0x00), (0x0307, 0x7C), (0x030B, 0x02), (0x030D, 0x04), (0x0310, 0x01),
    (0x3CA0, 0x00), (0x3CA1, 0x64), (0x3CA4, 0x00), (0x3CA5, 0x00), (0x3CA6, 0x00),
    (0x3CA7, 0x00), (0x3CAA, 0x00), (0x3CAB, 0x00), (0x3CB8, 0x00), (0x3CB9, 0x08),
    (0x3CBA, 0x00), (0x3CBB, 0x00), (0x3CBC, 0x00), (0x3CBD, 0x3C), (0x3CBE, 0x00),
    (0x3CBF, 0x00), (0x0202, 0x0A), (0x0203, 0x29), (0x0224, 0x01), (0x0225, 0xF4),
    (0x3116, 0x01), (0x3117, 0xF4), (0x0204, 0x00), (0x0205, 0x00), (0x0216, 0x00),
    (0x0217, 0x00), (0x0218, 0x01), (0x0219, 0x00), (0x020E, 0x01), (0x020F, 0x00),
    (0x3118, 0x00), (0x3119, 0x00), (0x311A, 0x01), (0x311B, 0x00), (0x341A, 0x00),
    (0x341B, 0x00), (0x341C, 0x00), (0x341D, 0x00), (0x341E, 0x01), (0x341F, 0x20),
    (0x3420, 0x00), (0x3421, 0xD8), (0xC428, 0x00), (0xC429, 0x04), (0x3366, 0x00),
    (0x3367, 0x00), (0x3368, 0x00), (0x3369, 0x00)]"

definition mode_2x2binned_regs :: "imx708_reg list" where
  "mode_2x2binned_regs = [
    (0x0342, 0x1E), (0x0343, 0x90), (0x0340, 0x05), (0x0341, 0x38), (0x0344, 0x00),
    (0x0345, 0x00), (0x0346, 0x00), (0x0347, 0x00), (0x0348, 0x11), (0x0349, 0xFF),
    (0x034A, 0x0A), (0x034B, 0x1F), (0x0220, 0x62), (0x0222, 0x01), (0x0900, 0x01),
    (0x0901, 0x22), (0x0902, 0x08), (0x3200, 0x41), (0x3201, 0x41), (0x32D5, 0x00),
    (0x32D6, 0x00), (0x32DB, 0x01), (0x32DF, 0x00), (0x350C, 0x00), (0x350D, 0x00),
    (0x0408, 0x00), (0x0409, 0x00), (0x040A, 0x00), (0x040B, 0x00), (0x040C, 0x09),
    (0x040D, 0x00), (0x040E, 0x05), (0x040F, 0x10), (0x034C, 0x09), (0x034D, 0x00),
    (0x034E, 0x05), (0x034F, 0x10), (0x0301, 0x05), (0x0303, 0x02), (0x0305, 0x02),
    (0x0306, 0x00), (0x0307, 0x7A), (0x030B, 0x02), (0x030D, 0x04), (0x0310, 0x01),
    (0x3CA0, 0x00), (0x3CA1, 0x3C), (0x3CA4, 0x00), (0x3CA5, 0x3C), (0x3CA6, 0x00),
    (0x3CA7, 0x00), (0x3CAA, 0x00), (0x3CAB, 0x00), (0x3CB8, 0x00), (0x3CB9, 0x1C),
    (0x3CBA, 0x00), (0x3CBB, 0x08), (0x3CBC, 0x00), (0x3CBD, 0x1E), (0x3CBE, 0x00),
    (0x3CBF, 0x0A), (0x0202, 0x05), (0x0203, 0x08), (0x0224, 0x01), (0x0225, 0xF4),
    (0x3116, 0x01), (0x3117, 0xF4), (0x0204, 0x00), (0x0205, 0x70), (0x0216, 0x00),
    (0x0217, 0x70), (0x0218, 0x01), (0x0219, 0x00), (0x020E, 0x01), (0x020F, 0x00),
    (0x3118, 0x00), (0x3119, 0x70), (0x311A, 0x01), (0x311B, 0x00), (0x341A, 0x00),
    (0x341B, 0x00), (0x341C, 0x00), (0x341D, 0x00), (0x341E, 0x00), (0x341F, 0x90),
    (0x3420, 0x00), (0x3421, 0x6C), (0x3366, 0x07), (0x3367, 0x80), (0x3368, 0x04),
    (0x3369, 0x38)]"

definition mode_2x2binned_720p_regs :: "imx708_reg list" where
  "mode_2x2binned_720p_regs = [
    (0x0342, 0x14), (0x0343, 0x60), (0x0340, 0x04), (0x0341, 0xB6), (0x0344, 0x03),
    (0x0345, 0x00), (0x0346, 0x01), (0x0347, 0xB0), (0x0348, 0x0E), (0x0349, 0xFF),
    (0x034A, 0x08), (0x034B, 0x6F), (0x0220, 0x62), (0x0222, 0x01), (0x0900, 0x01),
    (0x0901, 0x22), (0x0902, 0x08), (0x3200, 0x41), (0x3201, 0x41), (0x32D5, 0x00),
    (0x32D6, 0x00), (0x32DB, 0x01), (0x32DF, 0x01), (0x350C, 0x00), (0x350D, 0x00),
    (0x0408, 0x00), (0x0409, 0x00), (0x040A, 0x00), (0x040B, 0x00), (0x040C, 0x06),
    (0x040D, 0x00), (0x040E, 0x03), (0x040F, 0x60), (0x034C, 0x06), (0x034D, 0x00),
    (0x034E, 0x03), (0x034F, 0x60), (0x0301, 0x05), (0x0303, 0x02), (0x0305, 0x02),
    (0x0306, 0x00), (0x0307, 0x76), (0x030B, 0x02), (0x030D, 0x04), (0x0310, 0x01),
    (0x3CA0, 0x00), (0x3CA1, 0x3C), (0x3CA4, 0x01), (0x3CA5, 0x5E), (0x3CA6, 0x00),
    (0x3CA7, 0x00), (0x3CAA, 0x00), (0x3CAB, 0x00), (0x3CB8, 0x00), (0x3CB9, 0x0C),
    (0x3CBA, 0x00), (0x3CBB, 0x04), (0x3CBC, 0x00), (0x3CBD, 0x1E), (0x3CBE, 0x00),
    (0x3CBF, 0x05), (0x0202, 0x04), (0x0203, 0x86), (0x0224, 0x01), (0x0225, 0xF4),
    (0x3116, 0x01), (0x3117, 0xF4), (0x0204, 0x00), (0x0205, 0x70), (0x0216, 0x00),
    (0x0217, 0x70), (0x0218, 0x01), (0x0219, 0x00), (0x020E, 0x01), (0x020F, 0x00),
    (0x3118, 0x00), (0x3119, 0x70), (0x311A, 0x01), (0x311B, 0x00), (0x341A, 0x00),
    (0x341B, 0x00), (0x341C, 0x00), (0x341D, 0x00), (0x341E, 0x00), (0x341F, 0x60),
    (0x3420, 0x00), (0x3421, 0x48), (0x3366, 0x00), (0x3367, 0x00), (0x3368, 0x00),
    (0x3369, 0x00)]"

definition mode_hdr_regs :: "imx708_reg list" where
  "mode_hdr_regs = [
    (0x0342, 0x14), (0x0343, 0x60), (0x0340, 0x0A), (0x0341, 0x5B), (0x0344, 0x00),
    (0x0345, 0x00), (0x0346, 0x00), (0x0347, 0x00), (0x0348, 0x11), (0x0349, 0xFF),
    (0x034A, 0x0A), (0x034B, 0x1F), (0x0220, 0x01), (0x0222, IMX708_HDR_EXPOSURE_RATIO), (0x0900, 0x00),
    (0x0901, 0x11), (0x0902, 0x0A), (0x3200, 0x01), (0x3201, 0x01), (0x32D5, 0x00),
    (0x32D6, 0x00), (0x32DB, 0x01), (0x32DF, 0x00), (0x350C, 0x00), (0x350D, 0x00),
    (0x0408, 0x00), (0x0409, 0x00), (0x040A, 0x00), (0x040B, 0x00), (0x040C, 0x09),
    (0x040D, 0x00), (0x040E, 0x05), (0x040F, 0x10), (0x034C, 0x09), (0x034D, 0x00),
    (0x034E, 0x05), (0x034F, 0x10), (0x0301, 0x05), (0x0303, 0x02), (0x0305, 0x02),
    (0x0306, 0x00), (0x0307, 0xA2), (0x030B, 0x02), (0x030D, 0x04), (0x0310, 0x01),
    (0x3CA0, 0x00), (0x3CA1, 0x00), (0x3CA4, 0x00), (0x3CA5, 0x00), (0x3CA6, 0x00),
    (0x3CA7, 0x28), (0x3CAA, 0x00), (0x3CAB, 0x00), (0x3CB8, 0x00), (0x3CB9, 0x30),
    (0x3CBA, 0x00), (0x3CBB, 0x00), (0x3CBC, 0x00), (0x3CBD, 0x32), (0x3CBE, 0x00),
    (0x3CBF, 0x00), (0x0202, 0x0A), (0x0203, 0x2B), (0x0224, 0x0A), (0x0225, 0x2B),
    (0x3116, 0x0A), (0x3117, 0x2B), (0x0204, 0x00), (0x0205, 0x00), (0x0216, 0x00),
    (0x0217, 0x00), (0x0218, 0x01), (0x0219, 0x00), (0x020E, 0x01), (0x020F, 0x00),
    (0x3118, 0x00), (0x3119, 0x00), (0x311A, 0x01), (0x311B, 0x00), (0x341A, 0x00),
    (0x341B, 0x00), (0x341C, 0x00), (0x341D, 0x00), (0x341E, 0x00), (0x341F, 0x90),
    (0x3420, 0x00), (0x3421, 0x6C), (0x3360, 0x01), (0x3361, 0x01), (0x3366, 0x07),
    (0x3367, 0x80), (0x3368, 0x04), (0x3369, 0x38)]"

definition link_freq_regs :: "imx708_reg list list" where
  "link_freq_regs = [link_450Mhz_regs, link_447Mhz_regs, link_453Mhz_regs]"

subsection \<open>Mode catalog\<close>

record v4l2_rect =
  left :: s32
  top :: s32
  r_width :: u32
  r_height :: u32

text \<open>\<^verbatim>\<open>struct imx708_mode\<close>, field for field; \<open>max_fps\<close> is the pair (numerator,
  denominator) of \<^verbatim>\<open>struct v4l2_fract\<close>.\<close>

record imx708_mode =
  bus_fmt :: u32
  width :: u32
  height :: u32
  max_fps :: "u32 \<times> u32"
  line_length_pix :: u32
  crop :: v4l2_rect
  vblank_min :: u32
  vblank_default :: u32
  reg_list :: "imx708_reg list"
  pixel_rate :: u64
  exposure_lines_min :: u32
  exposure_lines_step :: u32
  hdr_mode :: u32

definition supported_modes :: "imx708_mode list" where
  "supported_modes = [
    \<lparr> bus_fmt = MEDIA_BUS_FMT_SRGGB10_1X10,
      width = 4608, height = 2592,
      max_fps = (10000, 140000),
      line_length_pix = 0x3d20,
      crop = \<lparr> left = IMX708_PIXEL_ARRAY_LEFT, top = IMX708_PIXEL_ARRAY_TOP,
               r_width = 4608, r_height = 2592 \<rparr>,
      vblank_min = 58, vblank_default = 58,
      reg_list = mode_4608x2592_regs,
      pixel_rate = 595200000,
      exposure_lines_min = 8, exposure_lines_step = 1,
      hdr_mode = NO_HDR \<rparr>,
    \<lparr> bus_fmt = MEDIA_BUS_FMT_SRGGB10_1X10,
      width = 1920, height = 1080,
      max_fps = (10000, 660000),
      line_length_pix = 0x1e90,
      crop = \<lparr> left = IMX708_PIXEL_ARRAY_LEFT, top = IMX708_PIXEL_ARRAY_TOP,
               r_width = 4608, r_height = 2592 \<rparr>,
      vblank_min = 40, vblank_default = 1198,
      reg_list = mode_2x2binned_regs,
      pixel_rate = 585600000,
      exposure_lines_min = 4, exposure_lines_step = 2,
      hdr_mode = NO_HDR \<rparr>,
    \<lparr> bus_fmt = MEDIA_BUS_FMT_SRGGB10_1X10,
      width = 1920, height = 1080,
      max_fps = (10000, 310000),
      line_length_pix = 0x1460,
      crop = \<lparr> left = IMX708_PIXEL_ARRAY_LEFT, top = IMX708_PIXEL_ARRAY_TOP,
               r_width = 4608, r_height = 2592 \<rparr>,
      vblank_min = 3673, vblank_default = 3673,
      reg_list = mode_hdr_regs,
      pixel_rate = 777600000,
      exposure_lines_min = 8 * IMX708_HDR_EXPOSURE_RATIO * IMX708_HDR_EXPOSURE_RATIO,
      exposure_lines_step = 2 * IMX708_HDR_EXPOSURE_RATIO * IMX708_HDR_EXPOSURE_RATIO,
      hdr_mode = HDR_X3 \<rparr>,
    \<lparr> bus_fmt = MEDIA_BUS_FMT_SRGGB10_1X10,
      width = 1536, height = 864,
      max_fps = (10000, 1200000),
      line_length_pix = 0x1460,
      crop = \<lparr> left = IMX708_PIXEL_ARRAY_LEFT + 768, top = IMX708_PIXEL_ARRAY_TOP + 432,
               r_width = 3072, r_height = 1728 \<rparr>,
      vblank_min = 40, vblank_default = 2755,
      reg_list = mode_2x2binned_720p_regs,
      pixel_rate = 566400000,
      exposure_lines_min = 4, exposure_lines_step = 2,
      hdr_mode = NO_HDR \<rparr>]"

definition imx708_test_pattern_val :: "u32 list" where
  "imx708_test_pattern_val = [
    IMX708_TEST_PATTERN_DISABLE,
    IMX708_TEST_PATTERN_COLOR_BARS,
    IMX708_TEST_PATTERN_SOLID_COLOR,
    IMX708_TEST_PATTERN_GREY_COLOR,
    IMX708_TEST_PATTERN_PN9]"

subsection \<open>Controls\<close>

text \<open>
  The control ids that \<^verbatim>\<open>imx708_set_ctrl\<close> and \<^verbatim>\<open>imx708_init_controls\<close> name, and one
  constructor for every other 32-bit id. The numeric values of the named ids live in a
  header outside the source file; the driver only switches on them.
\<close>

datatype ctrl_id =
    V4L2_CID_VBLANK
  | V4L2_CID_ANALOGUE_GAIN
  | V4L2_CID_EXPOSURE
  | V4L2_CID_DIGITAL_GAIN
  | V4L2_CID_TEST_PATTERN
  | V4L2_CID_TEST_PATTERN_RED
  | V4L2_CID_TEST_PATTERN_GREENR
  | V4L2_CID_TEST_PATTERN_BLUE
  | V4L2_CID_TEST_PATTERN_GREENB
  | V4L2_CID_HFLIP
  | V4L2_CID_VFLIP
  | V4L2_CID_PIXEL_RATE
  | V4L2_CID_LINK_FREQ
  | V4L2_CID_HBLANK
  | V4L2_CID_OTHER u32

text \<open>
  The fields of \<^verbatim>\<open>struct v4l2_ctrl\<close> the driver reads or writes: the value (\<^verbatim>\<open>s32 val\<close>),
  the range (\<^verbatim>\<open>s64 minimum, maximum, default_value\<close> and \<^verbatim>\<open>u64 step\<close>, kept as
  integers) and the two flags it relies on.
\<close>

record v4l2_ctrl =
  val :: s32
  minimum :: int
  maximum :: int
  step :: int
  default_value :: int
  read_only :: bool
  grabbed :: bool

subsection \<open>Register transport\<close>

text \<open>
  One two-wire transaction as it goes over the bus: \<open>Write reg len v\<close> stores the \<open>len\<close>-byte
  value \<open>v\<close> at register \<open>reg\<close>, \<open>Read reg len\<close> fetches \<open>len\<close> bytes from it.
\<close>

datatype xfer = Write u16 nat u32 | Read u16 nat

subsection \<open>Device state\<close>

text \<open>
  \<^verbatim>\<open>struct imx708\<close> together with the part of the platform the driver talks to.
  \<^item> The control handler owns the controls: \<open>ctrl_handler\<close> is its list of controls in
    creation order and \<open>ctrl\<close> the control object behind each id. The pointers
    \<^verbatim>\<open>imx708->exposure\<close>, \<^verbatim>\<open>imx708->vblank\<close>, ... of the source are the ids of those
    controls, so a change made through one pointer is seen through every other.
  \<^item> \<open>cur_mode\<close> is the catalog entry the pointer \<^verbatim>\<open>cur_mode\<close> points to.
  \<^item> \<open>usage_count\<close> is the runtime-PM usage counter of the device and \<open>rpm_resume_ret\<close>
    the code that resuming it returns.
  \<^item> \<open>xfers\<close> logs every bus transaction attempted so far, oldest first, and \<open>reply\<close> is
    the bus and sensor as the driver meets them: \<open>reply n\<close> is \<open>None\<close> when the \<open>n\<close>-th
    transaction fails and \<open>Some v\<close> when it succeeds (\<open>v\<close> is the data of a read).
  \<^item> \<open>supplies_on\<close>, \<open>inclk_on\<close> and \<open>reset_gpio\<close> are the regulators, the clock and the
    reset line; the two \<open>_ret\<close> fields are what enabling the first two returns.
\<close>

record imx708 =
  ctrl_handler :: "ctrl_id list"
  ctrl :: "ctrl_id \<Rightarrow> v4l2_ctrl"
  streaming :: bool
  power_on :: bool
  cur_mode :: imx708_mode
  cfg_num :: nat
  common_regs_written :: bool
  long_exp_shift :: u32
  link_freq_idx :: nat
  usage_count :: nat
  rpm_resume_ret :: int
  xfers :: "xfer list"
  reply :: "nat \<Rightarrow> u32 option"
  supplies_on :: bool
  inclk_on :: bool
  reset_gpio :: bool
  regulator_bulk_enable_ret :: int
  clk_prepare_enable_ret :: int

section \<open>Operations\<close>

subsection \<open>Register access\<close>

text \<open>\<^verbatim>\<open>imx708_read_reg\<close>: the value read is the big-endian number in the last \<open>len\<close> bytes
  of the buffer; on failure the caller's variable is not written (0 here).\<close>

definition imx708_read_reg :: "imx708 \<Rightarrow> u16 \<Rightarrow> nat \<Rightarrow> int \<times> u32 \<times> imx708" where
  "imx708_read_reg s reg len =
     (if len > 4 then (- EINVAL, 0, s)
      else
        let s' = s\<lparr>xfers := xfers s @ [Read reg len]\<rparr> in
        case reply s (length (xfers s)) of
          None \<Rightarrow> (- EIO, 0, s')
        | Some v \<Rightarrow> (0, take_bit (8 * len) v, s'))"

text \<open>\<^verbatim>\<open>imx708_write_reg\<close>: the value is shifted left by \<open>8 * (4 - len)\<close> bits, stored
  big-endian, and the first \<open>len\<close> bytes of that are sent after the two address bytes. So
  the register receives the \<open>len\<close> low-order bytes of the value, and that is what the log
  keeps.\<close>

definition imx708_write_reg :: "imx708 \<Rightarrow> u16 \<Rightarrow> nat \<Rightarrow> u32 \<Rightarrow> int \<times> imx708" where
  "imx708_write_reg s reg len v =
     (if len > 4 then (- EINVAL, s)
      else
        let s' = s\<lparr>xfers := xfers s @ [Write reg len (take_bit (8 * len) v)]\<rparr> in
        case reply s (length (xfers s)) of
          None \<Rightarrow> (- EIO, s')
        | Some _ \<Rightarrow> (0, s'))"

text \<open>\<^verbatim>\<open>imx708_write_regs\<close>: one single-byte write per entry, stopping at the first failure.\<close>

fun imx708_write_regs :: "imx708 \<Rightarrow> imx708_reg list \<Rightarrow> int \<times> imx708" where
  "imx708_write_regs s [] = (0, s)"
| "imx708_write_regs s (r # regs) =
     (case imx708_write_reg s (fst r) 1 (ucast (snd r)) of
        (ret, s') \<Rightarrow> if ret \<noteq> 0 then (ret, s') else imx708_write_regs s' regs)"

subsection \<open>Exposure, gain and frame length\<close>

text \<open>\<^verbatim>\<open>max\<close> and \<^verbatim>\<open>min\<close> of the kernel on two values of one type: unsigned for
  \<^verbatim>\<open>unsigned int\<close>, signed for \<^verbatim>\<open>int\<close>.\<close>

definition max_u32 :: "u32 \<Rightarrow> u32 \<Rightarrow> u32" where
  "max_u32 x y = (if x > y then x else y)"

definition min_s32 :: "s32 \<Rightarrow> s32 \<Rightarrow> s32" where
  "min_s32 x y = (if x <s y then x else y)"

text \<open>\<^verbatim>\<open>imx708_set_exposure\<close>. In C the remainder by a zero step and a shift by 32 or more
  are undefined; no catalog entry has a zero step and the shift never exceeds 16. The
  properties below that depend on either are stated for the defined cases only.\<close>

definition imx708_set_exposure :: "imx708 \<Rightarrow> u32 \<Rightarrow> int \<times> imx708" where
  "imx708_set_exposure s v0 =
     (let v1 = max_u32 v0 (exposure_lines_min (cur_mode s));
          v2 = v1 - v1 mod exposure_lines_step (cur_mode s)
      in imx708_write_reg s IMX708_REG_EXPOSURE IMX708_REG_VALUE_16BIT
           (drop_bit (unat (long_exp_shift s)) v2))"

text \<open>
  Modelled from the spec: \<^verbatim>\<open>__v4l2_ctrl_modify_range\<close> belongs to the host framework and is
  not part of the source file. The spec says that a range is recomputed with a new
  maximum and default; the model stores the four range values in the control.
\<close>

definition v4l2_ctrl_modify_range :: "v4l2_ctrl \<Rightarrow> int \<Rightarrow> int \<Rightarrow> int \<Rightarrow> int \<Rightarrow> v4l2_ctrl" where
  "v4l2_ctrl_modify_range c mn mx st df =
     c\<lparr>minimum := mn, maximum := mx, step := st, default_value := df\<rparr>"

text \<open>\<^verbatim>\<open>imx708_adjust_exposure_range\<close>: the sum is computed in \<^verbatim>\<open>unsigned int\<close> and stored
  in an \<^verbatim>\<open>int\<close>; the framework receives both values sign-extended to 64 bits.\<close>

definition imx708_adjust_exposure_range :: "imx708 \<Rightarrow> imx708" where
  "imx708_adjust_exposure_range s =
     (let exposure_max = height (cur_mode s) + val (ctrl s V4L2_CID_VBLANK) - IMX708_EXPOSURE_OFFSET;
          exposure_def = min_s32 exposure_max (val (ctrl s V4L2_CID_EXPOSURE));
          e = ctrl s V4L2_CID_EXPOSURE
      in s\<lparr>ctrl := (ctrl s)(V4L2_CID_EXPOSURE :=
            v4l2_ctrl_modify_range e (minimum e) (sint exposure_max) (step e) (sint exposure_def))\<rparr>)"

definition imx708_set_analogue_gain :: "imx708 \<Rightarrow> u32 \<Rightarrow> int \<times> imx708" where
  "imx708_set_analogue_gain s v =
     imx708_write_reg s IMX708_REG_ANALOG_GAIN IMX708_REG_VALUE_16BIT v"

text \<open>The loop of \<^verbatim>\<open>imx708_set_frame_length\<close>: halve while the value exceeds the 16-bit
  maximum, counting the halvings.\<close>

function frame_length_loop :: "u32 \<Rightarrow> u32 \<Rightarrow> u32 \<times> u32" where
  "frame_length_loop shift v =
     (if v > IMX708_FRAME_LENGTH_MAX then frame_length_loop (shift + 1) (drop_bit 1 v)
      else (shift, v))"
  by pat_completeness auto
termination
proof (relation "measure (\<lambda>(shift, v). unat v)")
  show "wf (measure (\<lambda>(shift, v). unat v))" by simp
next
  fix shift v :: u32
  assume "IMX708_FRAME_LENGTH_MAX < v"
  then have "0 < unat v"
    by (simp add: IMX708_FRAME_LENGTH_MAX_def word_less_nat_alt)
  then have "unat (drop_bit 1 v) < unat v"
    by (simp add: drop_bit_eq_div unat_div)
  then show "((shift + 1, drop_bit 1 v), (shift, v)) \<in> measure (\<lambda>(shift, v). unat v)"
    by simp
qed

declare frame_length_loop.simps [simp del]

definition imx708_set_frame_length :: "imx708 \<Rightarrow> u32 \<Rightarrow> int \<times> imx708" where
  "imx708_set_frame_length s v0 =
     (case frame_length_loop 0 v0 of
        (shift, v) \<Rightarrow>
          let s1 = s\<lparr>long_exp_shift := shift\<rparr> in
          case imx708_write_reg s1 IMX708_REG_FRAME_LENGTH IMX708_REG_VALUE_16BIT v of
            (ret, s2) \<Rightarrow>
              if ret \<noteq> 0 then (ret, s2)
              else imx708_write_reg s2 IMX708_LONG_EXP_SHIFT_REG IMX708_REG_VALUE_08BIT
                     (long_exp_shift s2))"

text \<open>\<^verbatim>\<open>imx708_set_framing_limits\<close>: the vblank maximum and hblank are computed in
  \<^verbatim>\<open>unsigned int\<close> and passed on zero-extended; the 64-bit pixel rate is passed as a
  signed 64-bit value.\<close>

definition imx708_set_framing_limits :: "imx708 \<Rightarrow> imx708" where
  "imx708_set_framing_limits s =
     (let mode = cur_mode s;
          pr = sint (pixel_rate mode);
          hblank = line_length_pix mode - width mode;
          c = ctrl s
      in s\<lparr>ctrl := c(
            V4L2_CID_PIXEL_RATE := v4l2_ctrl_modify_range (c V4L2_CID_PIXEL_RATE) pr pr 1 pr,
            V4L2_CID_VBLANK := v4l2_ctrl_modify_range (c V4L2_CID_VBLANK)
               (uint (vblank_min mode))
               (uint (push_bit IMX708_LONG_EXP_SHIFT_MAX 1 * IMX708_FRAME_LENGTH_MAX - height mode))
               1 (uint (vblank_default mode)),
            V4L2_CID_HBLANK := v4l2_ctrl_modify_range (c V4L2_CID_HBLANK)
               (uint hblank) (uint hblank) 1 (uint hblank))\<rparr>)"

subsection \<open>Runtime power management\<close>

text \<open>
  Modelled from the spec: the runtime-PM core is not part of the source file. The spec
  describes power usage as a reference count that is acquired and released, whose
  acquisition can fail, and lets the hardware-apply phase of a control run only while
  power is in active use. \<open>pm_runtime_get_sync\<close> takes a reference and returns the code of
  the resume; \<open>pm_runtime_put\<close> and \<open>pm_runtime_put_noidle\<close> drop one;
  \<open>pm_runtime_get_if_in_use\<close> takes one only when the count is not zero and says whether
  it did; a put at count 0 leaves the count at 0. Powering the device up and down (\<open>imx708_power_on\<close>, \<open>imx708_power_off\<close> below)
  is the PM core's decision and an event of its own.
\<close>

definition pm_runtime_get_sync :: "imx708 \<Rightarrow> int \<times> imx708" where
  "pm_runtime_get_sync s = (rpm_resume_ret s, s\<lparr>usage_count := usage_count s + 1\<rparr>)"

definition pm_runtime_put :: "imx708 \<Rightarrow> imx708" where
  "pm_runtime_put s = s\<lparr>usage_count := usage_count s - 1\<rparr>"

definition pm_runtime_put_noidle :: "imx708 \<Rightarrow> imx708" where
  "pm_runtime_put_noidle s = s\<lparr>usage_count := usage_count s - 1\<rparr>"

definition pm_runtime_get_if_in_use :: "imx708 \<Rightarrow> int \<times> imx708" where
  "pm_runtime_get_if_in_use s =
     (if usage_count s = 0 then (0, s) else (1, s\<lparr>usage_count := usage_count s + 1\<rparr>))"

subsection \<open>Applying a control\<close>

text \<open>
  The second \<^verbatim>\<open>switch\<close> of \<^verbatim>\<open>imx708_set_ctrl\<close>, reached only with power in use. The
  argument \<^verbatim>\<open>ctrl\<close> of the source points to a control of the handler; here it is the id of
  that control, and \<^verbatim>\<open>ctrl->val\<close> is the value stored behind it. The return code of
  \<^verbatim>\<open>imx708_set_analogue_gain\<close> is dropped, as in the source. The test-pattern value
  indexes a five-entry table; the framework keeps the menu index within it.
\<close>

definition set_ctrl_apply :: "imx708 \<Rightarrow> ctrl_id \<Rightarrow> int \<times> imx708" where
  "set_ctrl_apply s cid =
     (let v = val (ctrl s cid) in
      case cid of
        V4L2_CID_ANALOGUE_GAIN \<Rightarrow> (0, snd (imx708_set_analogue_gain s v))
      | V4L2_CID_EXPOSURE \<Rightarrow> imx708_set_exposure s v
      | V4L2_CID_DIGITAL_GAIN \<Rightarrow>
          imx708_write_reg s IMX708_REG_DIGITAL_GAIN IMX708_REG_VALUE_16BIT v
      | V4L2_CID_TEST_PATTERN \<Rightarrow>
          imx708_write_reg s IMX708_REG_TEST_PATTERN IMX708_REG_VALUE_16BIT
            (imx708_test_pattern_val ! unat v)
      | V4L2_CID_TEST_PATTERN_RED \<Rightarrow>
          imx708_write_reg s IMX708_REG_TEST_PATTERN_R IMX708_REG_VALUE_16BIT v
      | V4L2_CID_TEST_PATTERN_GREENR \<Rightarrow>
          imx708_write_reg s IMX708_REG_TEST_PATTERN_GR IMX708_REG_VALUE_16BIT v
      | V4L2_CID_TEST_PATTERN_BLUE \<Rightarrow>
          imx708_write_reg s IMX708_REG_TEST_PATTERN_B IMX708_REG_VALUE_16BIT v
      | V4L2_CID_TEST_PATTERN_GREENB \<Rightarrow>
          imx708_write_reg s IMX708_REG_TEST_PATTERN_GB IMX708_REG_VALUE_16BIT v
      | V4L2_CID_HFLIP \<Rightarrow>
          imx708_write_reg s IMX708_REG_ORIENTATION 1
            (val (ctrl s V4L2_CID_HFLIP) OR push_bit 1 (val (ctrl s V4L2_CID_VFLIP)))
      | V4L2_CID_VFLIP \<Rightarrow>
          imx708_write_reg s IMX708_REG_ORIENTATION 1
            (val (ctrl s V4L2_CID_HFLIP) OR push_bit 1 (val (ctrl s V4L2_CID_VFLIP)))
      | V4L2_CID_VBLANK \<Rightarrow> imx708_set_frame_length s (height (cur_mode s) + v)
      | _ \<Rightarrow> (- EINVAL, s))"

definition imx708_set_ctrl :: "imx708 \<Rightarrow> ctrl_id \<Rightarrow> int \<times> imx708" where
  "imx708_set_ctrl s cid =
     (let s1 = (if cid = V4L2_CID_VBLANK then imx708_adjust_exposure_range s else s) in
      case pm_runtime_get_if_in_use s1 of
        (in_use, s2) \<Rightarrow>
          if in_use = 0 then (0, s2)
          else case set_ctrl_apply s2 cid of (ret, s3) \<Rightarrow> (ret, pm_runtime_put s3))"

subsection \<open>Format negotiation\<close>











subsection \<open>Streaming\<close>

text \<open>One of the two loops that write a 54-entry gain table:
  \<^verbatim>\<open>for (i = 0; i < 54 && ret == 0; i++)\<close>, over the indices still to do.\<close>

fun pdaf_write_loop :: "imx708 \<Rightarrow> u16 \<Rightarrow> u8 list \<Rightarrow> nat list \<Rightarrow> int \<times> imx708" where
  "pdaf_write_loop s base gains [] = (0, s)"
| "pdaf_write_loop s base gains (i # is) =
     (case imx708_write_reg s (base + of_nat i) IMX708_REG_VALUE_08BIT
             (ucast (gains ! (i mod 9))) of
        (ret, s') \<Rightarrow> if ret = 0 then pdaf_write_loop s' base gains is else (ret, s'))"

text \<open>The block of \<^verbatim>\<open>imx708_start_streaming\<close> guarded by
  \<^verbatim>\<open>if (!imx708->common_regs_written)\<close>.\<close>

definition write_common_regs :: "imx708 \<Rightarrow> int \<times> imx708" where
  "write_common_regs s =
     (case imx708_write_regs s mode_common_regs of
        (ret, s1) \<Rightarrow>
          if ret \<noteq> 0 then (ret, s1)
          else case imx708_read_reg s1 IMX708_REG_BASE_SPC_GAINS_L IMX708_REG_VALUE_08BIT of
            (ret, v, s2) \<Rightarrow>
              case (if ret = 0 \<and> v = 0x40
                    then case pdaf_write_loop s2 IMX708_REG_BASE_SPC_GAINS_L (pdaf_gains ! 0) [0..<54] of
                      (ret, s3) \<Rightarrow>
                        if ret = 0
                        then pdaf_write_loop s3 IMX708_REG_BASE_SPC_GAINS_R (pdaf_gains ! 1) [0..<54]
                        else (ret, s3)
                    else (ret, s2)) of
                (ret, s4) \<Rightarrow>
                  if ret \<noteq> 0 then (ret, s4)
                  else (0, s4\<lparr>common_regs_written := True\<rparr>))"

text \<open>
  Modelled from the spec: \<^verbatim>\<open>__v4l2_ctrl_handler_setup\<close> belongs to the host framework and
  is not part of the source file. The spec has every current control value replayed into
  the hardware through the control pipeline; the model applies \<open>imx708_set_ctrl\<close> to the
  handler's controls in creation order, leaving out the read-only ones, and stops at the
  first failure.
\<close>

fun ctrl_replay :: "imx708 \<Rightarrow> ctrl_id list \<Rightarrow> int \<times> imx708" where
  "ctrl_replay s [] = (0, s)"
| "ctrl_replay s (cid # cids) =
     (if read_only (ctrl s cid) then ctrl_replay s cids
      else case imx708_set_ctrl s cid of
        (ret, s') \<Rightarrow> if ret \<noteq> 0 then (ret, s') else ctrl_replay s' cids)"

definition v4l2_ctrl_handler_setup :: "imx708 \<Rightarrow> int \<times> imx708" where
  "v4l2_ctrl_handler_setup s = ctrl_replay s (ctrl_handler s)"

definition imx708_start_streaming :: "imx708 \<Rightarrow> int \<times> imx708" where
  "imx708_start_streaming s =
     (case (if \<not> common_regs_written s then write_common_regs s else (0, s)) of
        (ret, s1) \<Rightarrow>
          if ret \<noteq> 0 then (ret, s1)
          else case imx708_write_regs s1 (reg_list (cur_mode s1)) of
            (ret, s2) \<Rightarrow>
              if ret \<noteq> 0 then (ret, s2)
              else case imx708_write_regs s2 (link_freq_regs ! link_freq_idx s2) of
                (ret, s3) \<Rightarrow>
                  if ret \<noteq> 0 then (ret, s3)
                  else case v4l2_ctrl_handler_setup s3 of
                    (ret, s4) \<Rightarrow>
                      if ret \<noteq> 0 then (ret, s4)
                      else imx708_write_reg s4 IMX708_REG_MODE_SELECT IMX708_REG_VALUE_08BIT
                             IMX708_MODE_STREAMING)"

text \<open>\<^verbatim>\<open>imx708_stop_streaming\<close> returns nothing: a failed write is only logged.\<close>

definition imx708_stop_streaming :: "imx708 \<Rightarrow> imx708" where
  "imx708_stop_streaming s =
     snd (imx708_write_reg s IMX708_REG_MODE_SELECT IMX708_REG_VALUE_08BIT IMX708_MODE_STANDBY)"

text \<open>
  Modelled from the spec: \<^verbatim>\<open>__v4l2_ctrl_grab\<close> belongs to the host framework. The spec has
  the flip pair frozen while streaming and released when streaming stops; the model sets
  the control's \<open>grabbed\<close> flag.
\<close>

definition v4l2_ctrl_grab :: "imx708 \<Rightarrow> ctrl_id \<Rightarrow> bool \<Rightarrow> imx708" where
  "v4l2_ctrl_grab s cid g = s\<lparr>ctrl := (ctrl s)(cid := (ctrl s cid)\<lparr>grabbed := g\<rparr>)\<rparr>"

text \<open>\<^verbatim>\<open>imx708_set_stream\<close>: \<open>enable\<close> is the \<^verbatim>\<open>int\<close> of the source, compared with the
  \<^verbatim>\<open>bool\<close> \<open>streaming\<close> as an integer and stored in it as "not zero".\<close>

definition imx708_set_stream :: "imx708 \<Rightarrow> int \<Rightarrow> int \<times> imx708" where
  "imx708_set_stream s enable =
     (if (if streaming s then 1 else 0) = enable then (0, s)
      else
        case (if enable \<noteq> 0
              then case pm_runtime_get_sync s of
                (ret, s1) \<Rightarrow>
                  if ret < 0 then (ret, False, pm_runtime_put_noidle s1)
                  else case imx708_start_streaming s1 of
                    (ret, s2) \<Rightarrow>
                      if ret \<noteq> 0 then (ret, False, pm_runtime_put s2) else (ret, True, s2)
              else (0, True, pm_runtime_put (imx708_stop_streaming s))) of
          (ret, ok, s3) \<Rightarrow>
            if \<not> ok then (ret, s3)
            else
              let s4 = s3\<lparr>streaming := (enable \<noteq> 0)\<rparr>;
                  s5 = v4l2_ctrl_grab s4 V4L2_CID_VFLIP (enable \<noteq> 0);
                  s6 = v4l2_ctrl_grab s5 V4L2_CID_HFLIP (enable \<noteq> 0)
              in (ret, s6))"

subsection \<open>Power\<close>





definition imx708_s_power :: "imx708 \<Rightarrow> int \<Rightarrow> int \<times> imx708" where
  "imx708_s_power s on =
     (if power_on s = (on \<noteq> 0) then (0, s)
      else if on \<noteq> 0
      then case pm_runtime_get_sync s of
        (ret, s1) \<Rightarrow>
          if ret < 0 then (ret, pm_runtime_put_noidle s1)
          else (ret, s1\<lparr>power_on := True\<rparr>)
      else (0, (pm_runtime_put s)\<lparr>power_on := False\<rparr>))"

subsection \<open>Vendor ioctl\<close>

text \<open>The commands \<^verbatim>\<open>imx708_ioctl\<close> switches on. \<open>RKMODULE_SET_HDR_CFG\<close> carries the
  \<^verbatim>\<open>hdr_mode\<close> of its argument; \<open>RKMODULE_GET_MODULE_INFO\<close> only fills the caller's buffer
  with the module's identity strings.\<close>

datatype ioctl_cmd =
    RKMODULE_GET_MODULE_INFO
  | RKMODULE_SET_HDR_CFG u32
  | RKMODULE_OTHER u32

text \<open>The search loop of \<open>RKMODULE_SET_HDR_CFG\<close>: the first index below \<open>cfg_num\<close> whose
  entry has the given size and HDR variant, if there is one.\<close>

definition hdr_cfg_find :: "nat \<Rightarrow> u32 \<Rightarrow> u32 \<Rightarrow> u32 \<Rightarrow> nat option" where
  "hdr_cfg_find n w h hdr =
     List.find (\<lambda>i. w = width (supported_modes ! i) \<and> h = height (supported_modes ! i) \<and>
                     hdr_mode (supported_modes ! i) = hdr) [0..<n]"

definition imx708_ioctl :: "imx708 \<Rightarrow> ioctl_cmd \<Rightarrow> int \<times> imx708" where
  "imx708_ioctl s cmd =
     (case cmd of
        RKMODULE_GET_MODULE_INFO \<Rightarrow> (0, s)
      | RKMODULE_SET_HDR_CFG hdr \<Rightarrow>
          (case hdr_cfg_find (cfg_num s) (width (cur_mode s)) (height (cur_mode s)) hdr of
             None \<Rightarrow> (- EINVAL, s)
           | Some i \<Rightarrow> (0, imx708_set_framing_limits (s\<lparr>cur_mode := supported_modes ! i\<rparr>)))
      | RKMODULE_OTHER _ \<Rightarrow> (- ENOIOCTLCMD, s))"

subsection \<open>Device attach\<close>










text \<open>
  \<^verbatim>\<open>imx708_probe\<close>. The device structure is allocated zeroed, so every flag and counter
  starts at \<open>False\<close> and 0. A failed probe frees the device: the result is then only the
  error code (\<open>Inl\<close>), and a successful one is the attached device (\<open>Inr\<close>).
\<close>

definition zero_ctrl :: v4l2_ctrl where
  "zero_ctrl = \<lparr>val = 0, minimum = 0, maximum = 0, step = 0, default_value = 0,
               read_only = False, grabbed = False\<rparr>"


subsection \<open>Entry points\<close>



subsection \<open>A board and a device to evaluate on\<close>


definition standby_ctrls :: "ctrl_id \<Rightarrow> v4l2_ctrl" where
  "standby_ctrls =
     (\<lambda>_. zero_ctrl)(
       V4L2_CID_PIXEL_RATE := \<lparr>val = 595200000, minimum = 595200000, maximum = 595200000,
          step = 1, default_value = 595200000, read_only = True, grabbed = False\<rparr>,
       V4L2_CID_LINK_FREQ := \<lparr>val = 0, minimum = 0, maximum = 0, step = 1, default_value = 0,
          read_only = True, grabbed = False\<rparr>,
       V4L2_CID_VBLANK := \<lparr>val = 58, minimum = 58, maximum = 8385888, step = 1,
          default_value = 58, read_only = False, grabbed = False\<rparr>,
       V4L2_CID_HBLANK := \<lparr>val = 11040, minimum = 11040, maximum = 11040, step = 1,
          default_value = 11040, read_only = True, grabbed = False\<rparr>,
       V4L2_CID_EXPOSURE := \<lparr>val = 1600, minimum = 1, maximum = 65487, step = 1,
          default_value = 1600, read_only = False, grabbed = False\<rparr>,
       V4L2_CID_ANALOGUE_GAIN := \<lparr>val = 112, minimum = 112, maximum = 960, step = 1,
          default_value = 112, read_only = False, grabbed = False\<rparr>,
       V4L2_CID_DIGITAL_GAIN := \<lparr>val = 256, minimum = 256, maximum = 65535, step = 1,
          default_value = 256, read_only = False, grabbed = False\<rparr>,
       V4L2_CID_HFLIP := \<lparr>val = 0, minimum = 0, maximum = 1, step = 1, default_value = 0,
          read_only = False, grabbed = False\<rparr>,
       V4L2_CID_VFLIP := \<lparr>val = 0, minimum = 0, maximum = 1, step = 1, default_value = 0,
          read_only = False, grabbed = False\<rparr>,
       V4L2_CID_TEST_PATTERN := \<lparr>val = 0, minimum = 0, maximum = 4, step = 1,
          default_value = 0, read_only = False, grabbed = False\<rparr>,
       V4L2_CID_TEST_PATTERN_RED := \<lparr>val = 4095, minimum = 0, maximum = 4095, step = 1,
          default_value = 4095, read_only = False, grabbed = False\<rparr>,
       V4L2_CID_TEST_PATTERN_GREENR := \<lparr>val = 4095, minimum = 0, maximum = 4095, step = 1,
          default_value = 4095, read_only = False, grabbed = False\<rparr>,
       V4L2_CID_TEST_PATTERN_BLUE := \<lparr>val = 4095, minimum = 0, maximum = 4095, step = 1,
          default_value = 4095, read_only = False, grabbed = False\<rparr>,
       V4L2_CID_TEST_PATTERN_GREENB := \<lparr>val = 4095, minimum = 0, maximum = 4095, step = 1,
          default_value = 4095, read_only = False, grabbed = False\<rparr>)"

definition standby_device :: "(nat \<Rightarrow> u32 option) \<Rightarrow> imx708" where
  "standby_device answer =
     \<lparr>ctrl_handler = [V4L2_CID_PIXEL_RATE, V4L2_CID_LINK_FREQ, V4L2_CID_VBLANK, V4L2_CID_HBLANK,
        V4L2_CID_EXPOSURE, V4L2_CID_ANALOGUE_GAIN, V4L2_CID_DIGITAL_GAIN, V4L2_CID_HFLIP,
        V4L2_CID_VFLIP, V4L2_CID_TEST_PATTERN, V4L2_CID_TEST_PATTERN_RED,
        V4L2_CID_TEST_PATTERN_GREENR, V4L2_CID_TEST_PATTERN_BLUE, V4L2_CID_TEST_PATTERN_GREENB],
      ctrl = standby_ctrls, streaming = False, power_on = False,
      cur_mode = supported_modes ! 0, cfg_num = 4, common_regs_written = False,
      long_exp_shift = 0, link_freq_idx = 0, usage_count = 0, rpm_resume_ret = 0,
      xfers = [], reply = answer,
      supplies_on = True, inclk_on = True, reset_gpio = True,
      regulator_bulk_enable_ret = 0, clk_prepare_enable_ret = 0\<rparr>"

section \<open>Vocabulary of the properties\<close>

subsection \<open>Distance as the spec states it\<close>


subsection \<open>Controls the driver applies\<close>

text \<open>The labels of the second \<^verbatim>\<open>switch\<close> of \<^verbatim>\<open>imx708_set_ctrl\<close>; every other id reaches
  its \<^verbatim>\<open>default\<close> branch.\<close>

definition handled_ctrls :: "ctrl_id list" where
  "handled_ctrls = [V4L2_CID_ANALOGUE_GAIN, V4L2_CID_EXPOSURE, V4L2_CID_DIGITAL_GAIN,
     V4L2_CID_TEST_PATTERN, V4L2_CID_TEST_PATTERN_RED, V4L2_CID_TEST_PATTERN_GREENR,
     V4L2_CID_TEST_PATTERN_BLUE, V4L2_CID_TEST_PATTERN_GREENB, V4L2_CID_HFLIP, V4L2_CID_VFLIP,
     V4L2_CID_VBLANK]"

subsection \<open>What an operation on the bus leaves alone\<close>

text \<open>\<open>advances s s'\<close>: from \<open>s\<close> to \<open>s'\<close> the bus log has only grown, and nothing has changed
  but the log, the long-exposure shift, the calibration flag and the ranges of controls.
  \<open>io_failed s\<close>: the last transaction attempted in \<open>s\<close> is one that failed.\<close>

definition advances :: "imx708 \<Rightarrow> imx708 \<Rightarrow> bool" where
  "advances s s' \<longleftrightarrow>
     ctrl_handler s' = ctrl_handler s \<and> streaming s' = streaming s \<and>
     power_on s' = power_on s \<and> cur_mode s' = cur_mode s \<and> cfg_num s' = cfg_num s \<and>
     link_freq_idx s' = link_freq_idx s \<and> usage_count s' = usage_count s \<and>
     rpm_resume_ret s' = rpm_resume_ret s \<and> reply s' = reply s \<and>
     supplies_on s' = supplies_on s \<and> inclk_on s' = inclk_on s \<and>
     reset_gpio s' = reset_gpio s \<and>
     regulator_bulk_enable_ret s' = regulator_bulk_enable_ret s \<and>
     clk_prepare_enable_ret s' = clk_prepare_enable_ret s \<and>
     (\<forall>i. val (ctrl s' i) = val (ctrl s i) \<and> grabbed (ctrl s' i) = grabbed (ctrl s i) \<and>
          read_only (ctrl s' i) = read_only (ctrl s i)) \<and>
     (\<exists>l. xfers s' = xfers s @ l)"

definition io_failed :: "imx708 \<Rightarrow> bool" where
  "io_failed s \<longleftrightarrow> xfers s \<noteq> [] \<and> reply s (length (xfers s) - 1) = None"

subsection \<open>Failed transactions of a call\<close>




subsection \<open>Sequences in the bus log\<close>

text \<open>The transactions a register list and a gain table amount to; \<open>logged_at s n p\<close> says
  that the log of \<open>s\<close> holds the transactions \<open>p\<close> from position \<open>n\<close> on and that each of
  them succeeded.\<close>

definition reg_writes :: "imx708_reg list \<Rightarrow> xfer list" where
  "reg_writes regs = map (\<lambda>r. Write (fst r) 1 (ucast (snd r))) regs"

definition pdaf_writes :: "u16 \<Rightarrow> u8 list \<Rightarrow> nat list \<Rightarrow> xfer list" where
  "pdaf_writes base gains idxs =
     map (\<lambda>i. Write (base + of_nat i) IMX708_REG_VALUE_08BIT (ucast (gains ! (i mod 9)))) idxs"

definition logged_at :: "imx708 \<Rightarrow> nat \<Rightarrow> xfer list \<Rightarrow> bool" where
  "logged_at s n p \<longleftrightarrow>
     take (length p) (drop n (xfers s)) = p \<and>
     list_all (\<lambda>i. reply s (n + i) \<noteq> None) [0..<length p]"

text \<open>The sequence that makes the calibration flag true, starting at position \<open>n\<close> of the
  log: the common register list, written successfully; the sentinel register, read
  successfully; and, when the sentinel read is \<open>0x40\<close>, the two gain tables, written
  successfully.\<close>

definition calibration_sequence :: "imx708 \<Rightarrow> nat \<Rightarrow> bool" where
  "calibration_sequence s n \<longleftrightarrow>
     logged_at s n (reg_writes mode_common_regs @
                    [Read IMX708_REG_BASE_SPC_GAINS_L IMX708_REG_VALUE_08BIT]) \<and>
     (case reply s (n + length mode_common_regs) of
        None \<Rightarrow> False
      | Some v \<Rightarrow>
          if take_bit 8 v = 0x40
          then logged_at s (n + length mode_common_regs + 1)
                 (pdaf_writes IMX708_REG_BASE_SPC_GAINS_L (pdaf_gains ! 0) [0..<54] @
                  pdaf_writes IMX708_REG_BASE_SPC_GAINS_R (pdaf_gains ! 1) [0..<54])
          else True)"

text \<open>The two table loops of \<^verbatim>\<open>imx708_start_streaming\<close> taken together.\<close>

definition pdaf_patch :: "imx708 \<Rightarrow> int \<times> imx708" where
  "pdaf_patch s =
     (let p1 = pdaf_write_loop s IMX708_REG_BASE_SPC_GAINS_L (pdaf_gains ! 0) [0..<54] in
      if fst p1 = 0
      then pdaf_write_loop (snd p1) IMX708_REG_BASE_SPC_GAINS_R (pdaf_gains ! 1) [0..<54]
      else p1)"

subsection \<open>Devices and requests to evaluate on\<close>

text \<open>The 1920x1080 binned mode with vblank 1198; the same mode while streaming; a request
  for 1920x1080 in the catalog's format.\<close>

definition vblank_1198_device :: imx708 where
  "vblank_1198_device =
     (standby_device (\<lambda>_. Some 0))\<lparr>cur_mode := supported_modes ! 1,
        ctrl := standby_ctrls(V4L2_CID_VBLANK := (standby_ctrls V4L2_CID_VBLANK)\<lparr>val := 1198\<rparr>)\<rparr>"

definition streaming_1080p_device :: imx708 where
  "streaming_1080p_device =
     (standby_device (\<lambda>_. Some 0))\<lparr>streaming := True, cur_mode := supported_modes ! 1,
        usage_count := 1\<rparr>"


text \<open>\<open>with_val s cid v\<close> is the device once the framework has stored the value \<open>v\<close> in the
  control \<open>cid\<close>, which it does before it calls \<^verbatim>\<open>imx708_set_ctrl\<close> on that control.\<close>

definition with_val :: "imx708 \<Rightarrow> ctrl_id \<Rightarrow> s32 \<Rightarrow> imx708" where
  "with_val s cid v = ctrl_update (\<lambda>c. c(cid := (c cid)\<lparr>val := v\<rparr>)) s"

text \<open>The HDR mode with a long-exposure shift of 1; the 1920x1080 binned mode with power
  in use and the largest vblank of its range; and a device on which vblank 200000 was
  applied while power was not in use, then \<^verbatim>\<open>s_power(1)\<close> was called and the framework
  stored an exposure of 150000.\<close>

definition hdr_shift_1_device :: imx708 where
  "hdr_shift_1_device =
     (standby_device (\<lambda>_. Some 0))\<lparr>cur_mode := supported_modes ! 2, long_exp_shift := 1\<rparr>"

definition max_vblank_device :: imx708 where
  "max_vblank_device =
     with_val ((standby_device (\<lambda>_. Some 0))\<lparr>cur_mode := supported_modes ! 1, usage_count := 1\<rparr>)
       V4L2_CID_VBLANK 8387400"

definition stale_shift_device :: imx708 where
  "stale_shift_device =
     with_val
       (snd (imx708_s_power
          (snd (imx708_set_ctrl (with_val (standby_device (\<lambda>_. Some 0)) V4L2_CID_VBLANK 200000)
             V4L2_CID_VBLANK)) 1))
       V4L2_CID_EXPOSURE 150000"



section \<open>Verification\<close>

subsection \<open>Word arithmetic\<close>

lemma sint_of_int_32:
  "- (2 ^ 31) \<le> x \<Longrightarrow> x < 2 ^ 31 \<Longrightarrow> sint (word_of_int x :: 32 word) = x"
  by (simp add: sint_sbintrunc' signed_take_bit_int_eq_self)

lemma exposure_max_exact:
  fixes h v :: u32
  assumes "0 \<le> sint v" and "uint h + sint v \<le> 2 ^ 7 * 65535"
  shows "sint (h + v - IMX708_EXPOSURE_OFFSET) = uint h + sint v - 48"
proof -
  have "h + v - IMX708_EXPOSURE_OFFSET = word_of_int (uint h + sint v - 48)"
    by (simp add: IMX708_EXPOSURE_OFFSET_def)
  moreover have "0 \<le> uint h" by simp
  ultimately show ?thesis
    using assms by (simp only: ) (rule sint_of_int_32, simp_all)
qed

lemma sint_min_s32: "sint (min_s32 a b) = min (sint a) (sint b)"
  by (simp add: min_s32_def word_sless_alt min_def)

lemma take_bit_ucast_u8 [simp]: "take_bit 8 (ucast (b :: u8) :: u32) = ucast b"
  by (rule bit_word_eqI) (auto simp add: bit_simps dest: bit_imp_le_length)

lemma unat_take_bit_32: "unat (take_bit n (w :: u32)) = unat w mod 2 ^ n"
  unfolding unsigned_take_bit_eq by (rule take_bit_eq_mod)

lemma take_bit_small: "unat (w :: u32) < 2 ^ n \<Longrightarrow> take_bit n w = w"
  by (rule word_unat_eq_iff [THEN iffD2]) (simp only: unat_take_bit_32 mod_less)

lemma total_exact:
  fixes h v :: u32
  assumes "0 \<le> sint v" and "uint h + sint v \<le> 2 ^ 7 * 65535"
  shows "uint (h + v) = uint h + sint v"
proof -
  have "h + v = word_of_int (uint h + sint v)" by simp
  moreover have "0 \<le> uint h" by simp
  ultimately show ?thesis
    using assms by (simp only: uint_word_of_int) (simp add: take_bit_int_eq_self)
qed

subsection \<open>The frame-length loop\<close>

lemma frame_length_loop_result:
  "frame_length_loop sh v = (sh', v') \<Longrightarrow>
     \<exists>n. sh' = sh + of_nat n \<and> v' = drop_bit n v \<and> v' \<le> IMX708_FRAME_LENGTH_MAX \<and>
         (\<forall>k<n. IMX708_FRAME_LENGTH_MAX < drop_bit k v)"
proof (induction sh v arbitrary: sh' v' rule: frame_length_loop.induct)
  case (1 shift v)
  show ?case
  proof (cases "v > IMX708_FRAME_LENGTH_MAX")
    case True
    with "1.prems" have "frame_length_loop (shift + 1) (drop_bit 1 v) = (sh', v')"
      by (simp add: frame_length_loop.simps [of shift v])
    from "1.IH" [OF True this] obtain n where n:
      "sh' = shift + 1 + of_nat n" "v' = drop_bit n (drop_bit 1 v)"
      "v' \<le> IMX708_FRAME_LENGTH_MAX"
      "\<forall>k<n. IMX708_FRAME_LENGTH_MAX < drop_bit k (drop_bit 1 v)"
      by blast
    have "\<forall>k<Suc n. IMX708_FRAME_LENGTH_MAX < drop_bit k v"
    proof (intro allI impI)
      fix k assume "k < Suc n"
      show "IMX708_FRAME_LENGTH_MAX < drop_bit k v"
      proof (cases k)
        case 0
        with True show ?thesis by simp
      next
        case (Suc j)
        with \<open>k < Suc n\<close> n(4) have "IMX708_FRAME_LENGTH_MAX < drop_bit j (drop_bit 1 v)"
          by simp
        with Suc show ?thesis by simp
      qed
    qed
    moreover have "sh' = shift + of_nat (Suc n)" using n(1) by simp
    moreover have "v' = drop_bit (Suc n) v" using n(2) by simp
    ultimately show ?thesis using n(3) by blast
  next
    case False
    with "1.prems" have "sh' = shift" "v' = v"
      by (simp_all add: frame_length_loop.simps [of shift v])
    with False show ?thesis
      by (intro exI [of _ 0]) (simp add: not_less)
  qed
qed

lemma unat_drop_bit_div: "unat (drop_bit n (v :: u32)) = unat v div 2 ^ n"
  unfolding unat_drop_bit_eq by (rule drop_bit_eq_div)

lemma drop_bit_16_small: "\<not> IMX708_FRAME_LENGTH_MAX < drop_bit 16 (v :: u32)"
proof -
  have "unat (drop_bit 16 v) = unat v div 2 ^ 16"
    by (rule unat_drop_bit_div)
  moreover have "unat v < 2 ^ 32" using unsigned_less [of v] by simp
  ultimately have "unat (drop_bit 16 v) < 2 ^ 16"
    by (simp add: less_mult_imp_div_less)
  then show ?thesis
    by (simp add: IMX708_FRAME_LENGTH_MAX_def word_less_nat_alt)
qed


lemma frame_length_loop_shift_le:
  assumes "frame_length_loop 0 v = (sh', v')"
  shows "\<exists>n\<le>16. sh' = of_nat n \<and> unat sh' = n \<and> v' = drop_bit n v \<and>
           v' \<le> IMX708_FRAME_LENGTH_MAX \<and> (\<forall>k<n. IMX708_FRAME_LENGTH_MAX < drop_bit k v)"
proof -
  from frame_length_loop_result [OF assms] obtain n where n:
    "sh' = of_nat n" "v' = drop_bit n v" "v' \<le> IMX708_FRAME_LENGTH_MAX"
    "\<forall>k<n. IMX708_FRAME_LENGTH_MAX < drop_bit k v"
    by auto
  have "n \<le> 16"
  proof (rule ccontr)
    assume "\<not> n \<le> 16"
    then have "16 < n" by simp
    with n(4) have "IMX708_FRAME_LENGTH_MAX < drop_bit 16 v" by blast
    with drop_bit_16_small show False by blast
  qed
  moreover from this have "unat (of_nat n :: u32) = n"
    by (simp add: unat_of_nat)
  ultimately show ?thesis using n by blast
qed

lemma frame_length_bounds:
  fixes v :: u32
  shows "unat (drop_bit n v) * 2 ^ n \<le> unat v"
    and "unat v + 1 \<le> unat (drop_bit n v) * 2 ^ n + 2 ^ n"
proof -
  have "unat v = unat v div 2 ^ n * 2 ^ n + unat v mod 2 ^ n"
    by (rule div_mult_mod_eq [symmetric])
  moreover have "unat v mod 2 ^ n < 2 ^ n" by simp
  ultimately show "unat (drop_bit n v) * 2 ^ n \<le> unat v"
    and "unat v + 1 \<le> unat (drop_bit n v) * 2 ^ n + 2 ^ n"
    unfolding unat_drop_bit_div by linarith+
qed

lemma frame_length_shift_cap:
  fixes v :: u32
  assumes "\<forall>k<n. IMX708_FRAME_LENGTH_MAX < drop_bit k v" and "unat v \<le> 2 ^ 7 * 65535"
  shows "n \<le> 7"
proof (rule ccontr)
  assume "\<not> n \<le> 7"
  then have "7 < n" by simp
  with assms(1) have "IMX708_FRAME_LENGTH_MAX < drop_bit 7 v" by blast
  then have "65535 < unat v div 2 ^ 7"
    by (simp add: IMX708_FRAME_LENGTH_MAX_def word_less_nat_alt unat_drop_bit_div del: drop_bit_numeral_bit0 drop_bit_numeral_bit1)
  with assms(2) show False by simp
qed

subsection \<open>Register writes\<close>

lemmas reg_defs = IMX708_REG_VALUE_08BIT_def IMX708_REG_VALUE_16BIT_def

lemma write_reg_ctrl [simp]:
  "len \<le> 4 \<Longrightarrow> snd (imx708_write_reg s reg len v) =
     s\<lparr>xfers := xfers s @ [Write reg len (take_bit (8 * len) v)]\<rparr>"
  by (simp add: imx708_write_reg_def Let_def split: option.split)

lemma write_reg_ret:
  "len \<le> 4 \<Longrightarrow> fst (imx708_write_reg s reg len v) =
     (if reply s (length (xfers s)) = None then - EIO else 0)"
  by (auto simp add: imx708_write_reg_def Let_def split: option.split)

lemma set_frame_length_unfold:
  assumes "frame_length_loop 0 fl = (sh, w)"
  shows "snd (imx708_set_frame_length s fl) =
           s\<lparr>long_exp_shift := sh,
              xfers := xfers s @ Write IMX708_REG_FRAME_LENGTH IMX708_REG_VALUE_16BIT w #
                (if reply s (length (xfers s)) = None then []
                 else [Write IMX708_LONG_EXP_SHIFT_REG IMX708_REG_VALUE_08BIT sh])\<rparr>"
    and "fst (imx708_set_frame_length s fl) =
           (if reply s (length (xfers s)) = None \<or> reply s (Suc (length (xfers s))) = None
            then - EIO else 0)"
proof -
  from frame_length_loop_shift_le [OF assms] obtain n where n:
    "n \<le> 16" "sh = of_nat n" "w \<le> IMX708_FRAME_LENGTH_MAX"
    by blast
  have tw: "take_bit 16 w = w"
    using n(3) by (intro take_bit_small) (simp add: IMX708_FRAME_LENGTH_MAX_def word_le_nat_alt)
  have ts: "take_bit 8 sh = sh"
    unfolding n(2) using n(1) by (intro take_bit_small) (simp add: unat_of_nat)
  show "snd (imx708_set_frame_length s fl) =
           s\<lparr>long_exp_shift := sh,
              xfers := xfers s @ Write IMX708_REG_FRAME_LENGTH IMX708_REG_VALUE_16BIT w #
                (if reply s (length (xfers s)) = None then []
                 else [Write IMX708_LONG_EXP_SHIFT_REG IMX708_REG_VALUE_08BIT sh])\<rparr>"
    using assms tw ts
    by (auto simp add: imx708_set_frame_length_def imx708_write_reg_def Let_def reg_defs EIO_def
             split: option.split prod.split)
  show "fst (imx708_set_frame_length s fl) =
           (if reply s (length (xfers s)) = None \<or> reply s (Suc (length (xfers s))) = None
            then - EIO else 0)"
    using assms
    by (auto simp add: imx708_set_frame_length_def imx708_write_reg_def Let_def reg_defs EIO_def
             split: option.split prod.split)
qed

subsection \<open>The encoding of a frame length\<close>

text \<open>
  \<^verbatim>\<open>imx708_set_frame_length\<close> on any 32-bit total: it stores the number of halvings in
  \<open>long_exp_shift\<close> and writes the halved value to the 16-bit frame-length register, then
  the shift to its own register. The function has no cap of its own; the shift is at most
  \<open>IMX708_LONG_EXP_SHIFT_MAX\<close> for the totals up to \<open>2 ^ 7 * 0xFFFF\<close>.
\<close>

lemma set_frame_length_encoding:
  assumes "imx708_set_frame_length s fl = (ret, s')"
  shows "let n = unat (long_exp_shift s'); w = drop_bit n fl in
           xfers s' = xfers s @ Write IMX708_REG_FRAME_LENGTH IMX708_REG_VALUE_16BIT w #
             (if reply s (length (xfers s)) = None then []
              else [Write IMX708_LONG_EXP_SHIFT_REG IMX708_REG_VALUE_08BIT (long_exp_shift s')]) \<and>
           ret = (if reply s (length (xfers s)) = None \<or> reply s (Suc (length (xfers s))) = None
                  then - EIO else 0) \<and>
           w \<le> 0xFFFF \<and>
           (\<forall>k<n. 0xFFFF < drop_bit k fl) \<and>
           (fl \<le> 0xFFFF \<longrightarrow> long_exp_shift s' = 0 \<and> w = fl) \<and>
           n \<le> 16 \<and>
           (unat fl \<le> 2 ^ IMX708_LONG_EXP_SHIFT_MAX * 0xFFFF \<longrightarrow> n \<le> IMX708_LONG_EXP_SHIFT_MAX) \<and>
           unat w * 2 ^ n \<le> unat fl \<and>
           unat fl + 1 \<le> unat w * 2 ^ n + 2 ^ n"
proof -
  obtain sh w where loop: "frame_length_loop 0 fl = (sh, w)"
    by (cases "frame_length_loop 0 fl")
  from frame_length_loop_shift_le [OF loop] obtain n where n:
    "n \<le> 16" "sh = of_nat n" "unat sh = n" "w = drop_bit n fl"
    "w \<le> IMX708_FRAME_LENGTH_MAX" "\<forall>k<n. IMX708_FRAME_LENGTH_MAX < drop_bit k fl"
    by blast
  from assms have s': "s' = snd (imx708_set_frame_length s fl)"
    and ret: "ret = fst (imx708_set_frame_length s fl)" by simp_all
  have sh: "long_exp_shift s' = sh"
    by (simp add: s' set_frame_length_unfold(1) [OF loop])
  have log: "xfers s' = xfers s @ Write IMX708_REG_FRAME_LENGTH IMX708_REG_VALUE_16BIT w #
                (if reply s (length (xfers s)) = None then []
                 else [Write IMX708_LONG_EXP_SHIFT_REG IMX708_REG_VALUE_08BIT sh])"
    by (simp add: s' set_frame_length_unfold(1) [OF loop])
  have ok: "ret = (if reply s (length (xfers s)) = None \<or> reply s (Suc (length (xfers s))) = None
                   then - EIO else 0)"
    unfolding ret by (rule set_frame_length_unfold(2) [OF loop])
  have small: "fl \<le> 0xFFFF \<Longrightarrow> n = 0"
  proof (rule ccontr)
    assume "fl \<le> 0xFFFF" and "n \<noteq> 0"
    then have "0 < n" by simp
    with n(6) have "IMX708_FRAME_LENGTH_MAX < drop_bit 0 fl" by blast
    with \<open>fl \<le> 0xFFFF\<close> show False by (simp add: IMX708_FRAME_LENGTH_MAX_def)
  qed
  have cap: "unat fl \<le> 2 ^ IMX708_LONG_EXP_SHIFT_MAX * 0xFFFF \<Longrightarrow> n \<le> IMX708_LONG_EXP_SHIFT_MAX"
    using frame_length_shift_cap [OF n(6)] by (simp add: IMX708_LONG_EXP_SHIFT_MAX_def)
  have b1: "unat w * 2 ^ n \<le> unat fl" and b2: "unat fl + 1 \<le> unat w * 2 ^ n + 2 ^ n"
    unfolding n(4) by (rule frame_length_bounds)+
  have w16: "w \<le> 0xFFFF" and min16: "\<forall>k<n. 0xFFFF < drop_bit k fl"
    using n(5,6) by (simp_all add: IMX708_FRAME_LENGTH_MAX_def)
  have w0: "fl \<le> 0xFFFF \<Longrightarrow> sh = 0 \<and> w = fl"
    using small n(2,4) by simp
  show ?thesis
    unfolding Let_def sh n(3) n(4) [symmetric]
    using log ok w16 min16 w0 \<open>n \<le> 16\<close> cap b1 b2
    by blast
qed

subsection \<open>Exposure value resolution\<close>

lemma max_u32_unat: "unat (max_u32 a b) = max (unat a) (unat b)"
  by (auto simp add: max_u32_def word_less_nat_alt max_def)

lemma unat_round_down:
  fixes v st :: u32
  shows "unat (v - v mod st) = unat v - unat v mod unat st"
proof -
  have "unat v mod unat st \<le> unat v" by simp
  then have "v mod st \<le> v" by (simp add: word_le_nat_alt unat_mod)
  then show ?thesis by (simp add: unat_sub unat_mod)
qed

text \<open>
  Claim C4, as the code has it. For a mode whose exposure step is not zero and a shift
  below the word size (where the C expression is defined), \<^verbatim>\<open>imx708_set_exposure\<close>
  computes the request clamped up to \<open>exposure_lines_min\<close>, rounded down to a multiple of
  \<open>exposure_lines_step\<close> and shifted right by the current long-exposure shift, and hands
  that to one 16-bit write of the exposure register: the register receives the computed
  value modulo \<open>2 ^ 16\<close>. The two agree when the computed value is at most \<open>0xFFFF\<close>, which
  is the case whenever the shift is the one \<^verbatim>\<open>imx708_set_frame_length\<close> stores for a total
  not below the rounded exposure. The return code is the transport's.
\<close>

theorem set_exposure_written_value:
  assumes "exposure_lines_step (cur_mode s) \<noteq> 0" and "unat (long_exp_shift s) < 32"
  shows "let clamped = max (unat v) (unat (exposure_lines_min (cur_mode s)));
             rounded = clamped - clamped mod unat (exposure_lines_step (cur_mode s));
             computed = rounded div 2 ^ unat (long_exp_shift s)
         in xfers (snd (imx708_set_exposure s v)) =
              xfers s @ [Write IMX708_REG_EXPOSURE IMX708_REG_VALUE_16BIT
                           (of_nat (computed mod 2 ^ 16))] \<and>
            (computed \<le> 0xFFFF \<longrightarrow>
               xfers (snd (imx708_set_exposure s v)) =
                 xfers s @ [Write IMX708_REG_EXPOSURE IMX708_REG_VALUE_16BIT (of_nat computed)]) \<and>
            (\<forall>fl. long_exp_shift s = fst (frame_length_loop 0 fl) \<and> rounded \<le> unat fl \<longrightarrow>
               computed \<le> 0xFFFF) \<and>
            fst (imx708_set_exposure s v) =
              (if reply s (length (xfers s)) = None then - EIO else 0)"
proof -
  define clamped where "clamped = max (unat v) (unat (exposure_lines_min (cur_mode s)))"
  define rounded where "rounded = clamped - clamped mod unat (exposure_lines_step (cur_mode s))"
  define computed where "computed = rounded div 2 ^ unat (long_exp_shift s)"
  define x where "x = drop_bit (unat (long_exp_shift s))
      (max_u32 v (exposure_lines_min (cur_mode s)) -
       max_u32 v (exposure_lines_min (cur_mode s)) mod exposure_lines_step (cur_mode s))"
  have ux: "unat x = computed"
    unfolding x_def computed_def rounded_def clamped_def
    by (simp only: unat_drop_bit_div unat_round_down max_u32_unat)
  have "take_bit 16 x = of_nat (unat (take_bit 16 x))" by simp
  then have tx: "take_bit 16 x = of_nat (computed mod 2 ^ 16)"
    by (simp only: unat_take_bit_32 ux)
  have log: "xfers (snd (imx708_set_exposure s v)) =
               xfers s @ [Write IMX708_REG_EXPOSURE IMX708_REG_VALUE_16BIT
                            (of_nat (computed mod 2 ^ 16))]"
    unfolding tx [symmetric] x_def
    by (simp add: imx708_set_exposure_def Let_def reg_defs
          del: drop_bit_numeral_bit0 drop_bit_numeral_bit1)
  have ret: "fst (imx708_set_exposure s v) =
               (if reply s (length (xfers s)) = None then - EIO else 0)"
    by (simp add: imx708_set_exposure_def Let_def reg_defs write_reg_ret)
  have fits: "computed \<le> 0xFFFF"
    if sh: "long_exp_shift s = fst (frame_length_loop 0 fl)" and le: "rounded \<le> unat fl" for fl
  proof -
    obtain sh' w where loop: "frame_length_loop 0 fl = (sh', w)"
      by (cases "frame_length_loop 0 fl")
    from frame_length_loop_shift_le [OF loop] obtain n where n:
      "unat sh' = n" "w = drop_bit n fl" "w \<le> IMX708_FRAME_LENGTH_MAX"
      by blast
    from sh loop n(1) have "unat (long_exp_shift s) = n" by simp
    then have "computed = rounded div 2 ^ n" by (simp add: computed_def)
    also have "\<dots> \<le> unat fl div 2 ^ n" using le by (rule div_le_mono)
    also have "\<dots> = unat w" unfolding n(2) by (rule unat_drop_bit_div [symmetric])
    also have "\<dots> \<le> 0xFFFF"
      using n(3) by (simp add: IMX708_FRAME_LENGTH_MAX_def word_le_nat_alt)
    finally show ?thesis .
  qed
  have small: "computed mod 2 ^ 16 = computed" if "computed \<le> 0xFFFF"
    using that by simp
  show ?thesis
    unfolding Let_def clamped_def [symmetric] rounded_def [symmetric] computed_def [symmetric]
    using log ret fits small by auto
qed

theorem set_exposure_written_value_witness:
  "exposure_lines_step (cur_mode hdr_shift_1_device) \<noteq> 0 \<and>
   unat (long_exp_shift hdr_shift_1_device) < 32 \<and>
   xfers (snd (imx708_set_exposure hdr_shift_1_device 1000)) =
     [Write IMX708_REG_EXPOSURE IMX708_REG_VALUE_16BIT 496]"
proof -
  have h1: "exposure_lines_step (cur_mode hdr_shift_1_device) \<noteq> 0" by code_simp
  have h2: "unat (long_exp_shift hdr_shift_1_device) < 32" by code_simp
  have e: "xfers (snd (imx708_set_exposure hdr_shift_1_device 1000)) =
             [Write IMX708_REG_EXPOSURE IMX708_REG_VALUE_16BIT 496]"
    by code_simp
  from set_exposure_written_value [OF h1 h2, of 1000] h1 h2 e show ?thesis by simp
qed

text \<open>
  The computed value and the register differ when the shift is stale. On a device in
  standby on the full-resolution mode, the framework stores vblank 200000 and applies it
  while power is not in use: the exposure maximum becomes 202544 and the shift stays 0.
  After \<^verbatim>\<open>s_power(1)\<close> an exposure of 150000, within that range, is applied: the
  computed value is 150000 and the register receives 18928.
\<close>

theorem set_exposure_written_value_counterexample:
  "maximum (ctrl stale_shift_device V4L2_CID_EXPOSURE) = 202544 \<and>
   sint (val (ctrl stale_shift_device V4L2_CID_EXPOSURE)) = 150000 \<and>
   usage_count stale_shift_device = 1 \<and>
   long_exp_shift stale_shift_device = 0 \<and>
   (max (150000 :: nat) (unat (exposure_lines_min (cur_mode stale_shift_device))) -
    max (150000 :: nat) (unat (exposure_lines_min (cur_mode stale_shift_device))) mod
      unat (exposure_lines_step (cur_mode stale_shift_device)))
     div 2 ^ unat (long_exp_shift stale_shift_device) = 150000 \<and>
   fst (imx708_set_ctrl stale_shift_device V4L2_CID_EXPOSURE) = 0 \<and>
   xfers (snd (imx708_set_ctrl stale_shift_device V4L2_CID_EXPOSURE)) =
     [Write IMX708_REG_EXPOSURE IMX708_REG_VALUE_16BIT 18928]"
proof -
  have "maximum (ctrl stale_shift_device V4L2_CID_EXPOSURE) = 202544"
    and "sint (val (ctrl stale_shift_device V4L2_CID_EXPOSURE)) = 150000"
    and "usage_count stale_shift_device = 1"
    and "long_exp_shift stale_shift_device = 0"
    and "unat (exposure_lines_min (cur_mode stale_shift_device)) = 8"
    and "unat (exposure_lines_step (cur_mode stale_shift_device)) = 1"
    and "fst (imx708_set_ctrl stale_shift_device V4L2_CID_EXPOSURE) = 0"
    and "xfers (snd (imx708_set_ctrl stale_shift_device V4L2_CID_EXPOSURE)) =
           [Write IMX708_REG_EXPOSURE IMX708_REG_VALUE_16BIT 18928]"
    by code_simp+
  then show ?thesis by simp
qed

subsection \<open>Frame properties of the register operations\<close>

lemma advances_refl [simp]: "advances s s"
  by (simp add: advances_def)

lemma advances_trans:
  assumes "advances s s1" and "advances s1 s2"
  shows "advances s s2"
proof -
  from assms obtain l l' where "xfers s1 = xfers s @ l" "xfers s2 = xfers s1 @ l'"
    unfolding advances_def by blast
  then have "xfers s2 = xfers s @ (l @ l')" by simp
  then have "\<exists>l. xfers s2 = xfers s @ l" by blast
  with assms show ?thesis unfolding advances_def by simp
qed

lemma advances_fields:
  assumes "advances s s'"
  shows "streaming s' = streaming s" and "usage_count s' = usage_count s"
    and "reply s' = reply s" and "cur_mode s' = cur_mode s" and "cfg_num s' = cfg_num s"
    and "ctrl_handler s' = ctrl_handler s" and "link_freq_idx s' = link_freq_idx s"
    and "power_on s' = power_on s" and "rpm_resume_ret s' = rpm_resume_ret s"
    and "val (ctrl s' i) = val (ctrl s i)" and "grabbed (ctrl s' i) = grabbed (ctrl s i)"
    and "read_only (ctrl s' i) = read_only (ctrl s i)"
    and "\<exists>l. xfers s' = xfers s @ l"
  using assms unfolding advances_def by simp_all

lemma advances_usage:
  "advances s s' \<Longrightarrow> advances (s\<lparr>usage_count := n\<rparr>) (s'\<lparr>usage_count := n\<rparr>)"
  unfolding advances_def by simp

lemma write_reg_advances: "advances s (snd (imx708_write_reg s reg len v))"
  by (simp add: imx708_write_reg_def advances_def Let_def split: option.split)

lemma write_reg_flag: "common_regs_written (snd (imx708_write_reg s reg len v)) = common_regs_written s"
  by (simp add: imx708_write_reg_def Let_def split: option.split)

lemma write_reg_io_failed:
  "fst (imx708_write_reg s reg len v) = - EIO \<Longrightarrow> io_failed (snd (imx708_write_reg s reg len v))"
  by (auto simp add: imx708_write_reg_def io_failed_def Let_def EIO_def EINVAL_def
           split: option.splits if_splits)

lemma read_reg_advances: "advances s (snd (snd (imx708_read_reg s reg len)))"
  by (simp add: imx708_read_reg_def advances_def Let_def split: option.split)

lemma read_reg_flag:
  "common_regs_written (snd (snd (imx708_read_reg s reg len))) = common_regs_written s"
  by (simp add: imx708_read_reg_def Let_def split: option.split)

lemma read_reg_io_failed:
  "fst (imx708_read_reg s reg len) \<noteq> 0 \<Longrightarrow> len \<le> 4 \<Longrightarrow>
     fst (imx708_read_reg s reg len) = - EIO \<and> io_failed (snd (snd (imx708_read_reg s reg len)))"
  by (auto simp add: imx708_read_reg_def io_failed_def Let_def
           split: option.splits if_splits)

lemma write_regs_advances: "advances s (snd (imx708_write_regs s regs))"
proof (induction regs arbitrary: s)
  case Nil
  show ?case by simp
next
  case (Cons r regs)
  let ?w = "imx708_write_reg s (fst r) 1 (ucast (snd r))"
  have a: "advances s (snd ?w)" by (rule write_reg_advances)
  show ?case
  proof (cases "fst ?w = 0")
    case True
    with advances_trans [OF a Cons.IH [of "snd ?w"]] show ?thesis
      by (simp add: case_prod_beta del: write_reg_ctrl)
  next
    case False
    with a show ?thesis by (simp add: case_prod_beta del: write_reg_ctrl)
  qed
qed

lemma write_regs_flag:
  "common_regs_written (snd (imx708_write_regs s regs)) = common_regs_written s"
proof (induction regs arbitrary: s)
  case Nil
  show ?case by simp
next
  case (Cons r regs)
  let ?w = "imx708_write_reg s (fst r) 1 (ucast (snd r))"
  have a: "common_regs_written (snd ?w) = common_regs_written s" by (rule write_reg_flag)
  show ?case using a Cons.IH [of "snd ?w"]
    by (simp add: case_prod_beta del: write_reg_ctrl)
qed

lemma write_regs_io_failed:
  "fst (imx708_write_regs s regs) \<noteq> 0 \<Longrightarrow>
     fst (imx708_write_regs s regs) = - EIO \<and> io_failed (snd (imx708_write_regs s regs))"
proof (induction regs arbitrary: s)
  case Nil
  then show ?case by simp
next
  case (Cons r regs)
  let ?w = "imx708_write_reg s (fst r) 1 (ucast (snd r))"
  show ?case
  proof (cases "fst ?w = 0")
    case True
    with Cons.prems Cons.IH [of "snd ?w"] show ?thesis
      by (simp add: case_prod_beta del: write_reg_ctrl)
  next
    case False
    then have "fst ?w = - EIO"
      using write_reg_ret [of 1 s "fst r" "ucast (snd r)"] by (simp split: if_splits)
    with write_reg_io_failed [of s "fst r" 1 "ucast (snd r)"] False show ?thesis
      by (simp add: case_prod_beta del: write_reg_ctrl)
  qed
qed

lemma write_reg_fail:
  "len \<le> 4 \<Longrightarrow> fst (imx708_write_reg s reg len v) \<noteq> 0 \<Longrightarrow>
     fst (imx708_write_reg s reg len v) = - EIO \<and> io_failed (snd (imx708_write_reg s reg len v))"
  by (auto simp add: imx708_write_reg_def io_failed_def Let_def split: option.splits if_splits)

lemma shift_advances [simp]: "advances s (s\<lparr>long_exp_shift := sh\<rparr>)"
  by (simp add: advances_def)

lemma set_frame_length_advances: "advances s (snd (imx708_set_frame_length s v))"
proof -
  let ?s1 = "s\<lparr>long_exp_shift := fst (frame_length_loop 0 v)\<rparr>"
  let ?w1 = "imx708_write_reg ?s1 IMX708_REG_FRAME_LENGTH IMX708_REG_VALUE_16BIT (snd (frame_length_loop 0 v))"
  let ?w2 = "imx708_write_reg (snd ?w1) IMX708_LONG_EXP_SHIFT_REG IMX708_REG_VALUE_08BIT (long_exp_shift (snd ?w1))"
  have 1: "advances s (snd ?w1)"
    by (rule advances_trans [OF shift_advances write_reg_advances])
  have 2: "advances s (snd ?w2)"
    by (rule advances_trans [OF 1 write_reg_advances])
  show ?thesis
    using 1 2 by (simp add: imx708_set_frame_length_def case_prod_beta Let_def del: write_reg_ctrl)
qed

lemma set_frame_length_flag:
  "common_regs_written (snd (imx708_set_frame_length s v)) = common_regs_written s"
  by (simp add: imx708_set_frame_length_def case_prod_beta Let_def write_reg_flag del: write_reg_ctrl)

lemma set_frame_length_fail:
  assumes "fst (imx708_set_frame_length s v) \<noteq> 0"
  shows "fst (imx708_set_frame_length s v) = - EIO \<and> io_failed (snd (imx708_set_frame_length s v))"
proof -
  let ?s1 = "s\<lparr>long_exp_shift := fst (frame_length_loop 0 v)\<rparr>"
  let ?w1 = "imx708_write_reg ?s1 IMX708_REG_FRAME_LENGTH IMX708_REG_VALUE_16BIT (snd (frame_length_loop 0 v))"
  let ?w2 = "imx708_write_reg (snd ?w1) IMX708_LONG_EXP_SHIFT_REG IMX708_REG_VALUE_08BIT (long_exp_shift (snd ?w1))"
  have e: "imx708_set_frame_length s v = (if fst ?w1 \<noteq> 0 then (fst ?w1, snd ?w1) else ?w2)"
    by (simp add: imx708_set_frame_length_def case_prod_beta Let_def del: write_reg_ctrl)
  show ?thesis
  proof (cases "fst ?w1 \<noteq> 0")
    case True
    with write_reg_fail [of IMX708_REG_VALUE_16BIT ?s1 IMX708_REG_FRAME_LENGTH "snd (frame_length_loop 0 v)"]
    show ?thesis unfolding e by (simp add: reg_defs del: write_reg_ctrl)
  next
    case False
    with assms have "fst ?w2 \<noteq> 0" unfolding e by (simp del: write_reg_ctrl)
    with write_reg_fail [of IMX708_REG_VALUE_08BIT "snd ?w1" IMX708_LONG_EXP_SHIFT_REG "long_exp_shift (snd ?w1)"] False
    show ?thesis unfolding e by (simp add: reg_defs del: write_reg_ctrl)
  qed
qed

lemma set_exposure_advances: "advances s (snd (imx708_set_exposure s v))"
  by (simp add: imx708_set_exposure_def Let_def write_reg_advances del: write_reg_ctrl)

lemma set_exposure_flag: "common_regs_written (snd (imx708_set_exposure s v)) = common_regs_written s"
  by (simp add: imx708_set_exposure_def Let_def write_reg_flag del: write_reg_ctrl)

lemma set_exposure_fail:
  "fst (imx708_set_exposure s v) \<noteq> 0 \<Longrightarrow>
     fst (imx708_set_exposure s v) = - EIO \<and> io_failed (snd (imx708_set_exposure s v))"
  unfolding imx708_set_exposure_def Let_def
  by (rule write_reg_fail) (simp_all add: reg_defs)

lemma set_ctrl_apply_advances: "advances s (snd (set_ctrl_apply s cid))"
  by (cases cid)
     (simp_all add: set_ctrl_apply_def Let_def imx708_set_analogue_gain_def write_reg_advances
        set_exposure_advances set_frame_length_advances del: write_reg_ctrl)

lemma set_ctrl_apply_flag:
  "common_regs_written (snd (set_ctrl_apply s cid)) = common_regs_written s"
  by (cases cid)
     (simp_all add: set_ctrl_apply_def Let_def imx708_set_analogue_gain_def write_reg_flag
        set_exposure_flag set_frame_length_flag del: write_reg_ctrl)

lemma set_ctrl_apply_fail:
  "fst (set_ctrl_apply s cid) = - EIO \<Longrightarrow> io_failed (snd (set_ctrl_apply s cid))"
  by (cases cid)
     (simp_all add: set_ctrl_apply_def Let_def write_reg_io_failed EIO_def EINVAL_def
        set_exposure_fail [unfolded EIO_def] set_frame_length_fail [unfolded EIO_def]
        write_reg_io_failed [unfolded EIO_def] del: write_reg_ctrl)

lemma adjust_exposure_range_advances: "advances s (imx708_adjust_exposure_range s)"
  by (simp add: imx708_adjust_exposure_range_def advances_def Let_def v4l2_ctrl_modify_range_def)

lemma adjust_exposure_range_fields:
  "cur_mode (imx708_adjust_exposure_range s) = cur_mode s"
  "val (ctrl (imx708_adjust_exposure_range s) V4L2_CID_VBLANK) = val (ctrl s V4L2_CID_VBLANK)"
  "xfers (imx708_adjust_exposure_range s) = xfers s"
  "reply (imx708_adjust_exposure_range s) = reply s"
  "usage_count (imx708_adjust_exposure_range s) = usage_count s"
  by (simp_all add: imx708_adjust_exposure_range_def Let_def v4l2_ctrl_modify_range_def)

lemma adjust_exposure_range_flag:
  "common_regs_written (imx708_adjust_exposure_range s) = common_regs_written s"
  by (simp add: imx708_adjust_exposure_range_def Let_def)

lemma set_ctrl_unfold:
  "imx708_set_ctrl s cid =
     (let s1 = (if cid = V4L2_CID_VBLANK then imx708_adjust_exposure_range s else s) in
      if usage_count s1 = 0 then (0, s1)
      else (fst (set_ctrl_apply (s1\<lparr>usage_count := usage_count s1 + 1\<rparr>) cid),
            pm_runtime_put (snd (set_ctrl_apply (s1\<lparr>usage_count := usage_count s1 + 1\<rparr>) cid))))"
  by (simp add: imx708_set_ctrl_def pm_runtime_get_if_in_use_def Let_def case_prod_beta)

lemma set_ctrl_advances: "advances s (snd (imx708_set_ctrl s cid))"
proof -
  define s1 where "s1 = (if cid = V4L2_CID_VBLANK then imx708_adjust_exposure_range s else s)"
  have a1: "advances s s1"
    by (simp add: s1_def adjust_exposure_range_advances)
  define s2 where "s2 = s1\<lparr>usage_count := usage_count s1 + 1\<rparr>"
  have a2: "advances s2 (snd (set_ctrl_apply s2 cid))" by (rule set_ctrl_apply_advances)
  have "advances (s2\<lparr>usage_count := usage_count s1\<rparr>)
          ((snd (set_ctrl_apply s2 cid))\<lparr>usage_count := usage_count s1\<rparr>)"
    by (rule advances_usage [OF a2])
  moreover have "s2\<lparr>usage_count := usage_count s1\<rparr> = s1" by (simp add: s2_def)
  moreover have "(snd (set_ctrl_apply s2 cid))\<lparr>usage_count := usage_count s1\<rparr> =
                 pm_runtime_put (snd (set_ctrl_apply s2 cid))"
    using advances_fields(2) [OF a2] by (simp add: pm_runtime_put_def s2_def)
  ultimately have "advances s1 (pm_runtime_put (snd (set_ctrl_apply s2 cid)))" by simp
  with a1 have "advances s (pm_runtime_put (snd (set_ctrl_apply s2 cid)))"
    by (rule advances_trans)
  with a1 show ?thesis
    unfolding set_ctrl_unfold Let_def s1_def [symmetric] s2_def [symmetric] by simp
qed

lemma set_ctrl_flag:
  "common_regs_written (snd (imx708_set_ctrl s cid)) = common_regs_written s"
  by (simp add: set_ctrl_unfold Let_def pm_runtime_put_def set_ctrl_apply_flag
        adjust_exposure_range_flag)

lemma set_ctrl_fail:
  "fst (imx708_set_ctrl s cid) = - EIO \<Longrightarrow> io_failed (snd (imx708_set_ctrl s cid))"
  using set_ctrl_apply_fail
  by (auto simp add: set_ctrl_unfold Let_def pm_runtime_put_def io_failed_def EIO_def
           split: if_splits)

lemma ctrl_replay_advances: "advances s (snd (ctrl_replay s cids))"
proof (induction cids arbitrary: s)
  case Nil
  show ?case by simp
next
  case (Cons cid cids)
  show ?case
    using Cons.IH [of s] Cons.IH [of "snd (imx708_set_ctrl s cid)"]
      set_ctrl_advances [of s cid]
    by (auto simp add: case_prod_beta intro: advances_trans)
qed

lemma ctrl_replay_flag:
  "common_regs_written (snd (ctrl_replay s cids)) = common_regs_written s"
proof (induction cids arbitrary: s)
  case Nil
  show ?case by simp
next
  case (Cons cid cids)
  show ?case
    using Cons.IH [of s] Cons.IH [of "snd (imx708_set_ctrl s cid)"] set_ctrl_flag [of s cid]
    by (simp add: case_prod_beta)
qed

lemma ctrl_replay_fail:
  "fst (ctrl_replay s cids) = - EIO \<Longrightarrow> io_failed (snd (ctrl_replay s cids))"
proof (induction cids arbitrary: s)
  case Nil
  then show ?case by (simp add: EIO_def)
next
  case (Cons cid cids)
  then show ?case
    using set_ctrl_fail [of s cid]
    by (auto simp add: case_prod_beta split: if_splits)
qed

subsection \<open>The log of a successful sequence\<close>

lemma logged_at_Nil [simp]: "logged_at s n []"
  by (simp add: logged_at_def)

lemma logged_at_iff:
  "logged_at s n p \<longleftrightarrow>
     take (length p) (drop n (xfers s)) = p \<and> (\<forall>i<length p. reply s (n + i) \<noteq> None)"
  by (auto simp add: logged_at_def list_all_iff)

lemma logged_at_step:
  assumes "xfers s1 = xfers s @ [x]" and "reply s1 = reply s" and "reply s (length (xfers s)) \<noteq> None"
    and "xfers s2 = xfers s1 @ p @ l" and "reply s2 = reply s1"
    and "\<forall>i<length p. reply s1 (length (xfers s1) + i) \<noteq> None"
  shows "xfers s2 = xfers s @ (x # p) @ l"
    and "\<forall>i<length (x # p). reply s (length (xfers s) + i) \<noteq> None"
proof -
  show "xfers s2 = xfers s @ (x # p) @ l" using assms(1,4) by simp
  show "\<forall>i<length (x # p). reply s (length (xfers s) + i) \<noteq> None"
  proof (intro allI impI)
    fix i assume i: "i < length (x # p)"
    show "reply s (length (xfers s) + i) \<noteq> None"
    proof (cases i)
      case 0
      with assms(3) show ?thesis by simp
    next
      case (Suc j)
      with i have "j < length p" by simp
      with assms(6) have "reply s1 (length (xfers s1) + j) \<noteq> None" by blast
      with assms(1,2) Suc show ?thesis by simp
    qed
  qed
qed

lemma logged_atI:
  assumes "xfers s' = xfers s @ p @ l" and "reply s' = reply s"
    and "\<forall>i<length p. reply s (length (xfers s) + i) \<noteq> None"
  shows "logged_at s' (length (xfers s)) p"
  using assms by (simp add: logged_at_iff)

lemma logged_at_append:
  assumes "logged_at s n p" and "xfers s' = xfers s @ l" and "reply s' = reply s"
  shows "logged_at s' n p"
proof -
  from assms(1) have t: "take (length p) (drop n (xfers s)) = p"
    and r: "\<forall>i<length p. reply s (n + i) \<noteq> None"
    by (simp_all add: logged_at_iff)
  from t have "length (take (length p) (drop n (xfers s))) = length p"
    by (rule arg_cong)
  then have "length p \<le> length (drop n (xfers s))"
    by simp
  then have "take (length p) (drop n (xfers s) @ drop (n - length (xfers s)) l) =
             take (length p) (drop n (xfers s))"
    by simp
  with t assms(2) have "take (length p) (drop n (xfers s')) = p" by simp
  with r assms(3) show ?thesis by (simp add: logged_at_iff)
qed

lemma calibration_sequence_append:
  assumes "calibration_sequence s n" and "xfers s' = xfers s @ l" and "reply s' = reply s"
  shows "calibration_sequence s' n"
  using assms logged_at_append [OF _ assms(2,3)]
  by (auto simp add: calibration_sequence_def split: option.splits if_splits)

lemma write_reg_ok:
  assumes "len \<le> 4" and "fst (imx708_write_reg s reg len v) = 0"
  shows "reply s (length (xfers s)) \<noteq> None"
  using assms by (auto simp add: imx708_write_reg_def Let_def EIO_def split: option.splits)

lemma write_reg_reply [simp]: "reply (snd (imx708_write_reg s reg len v)) = reply s"
  by (simp add: imx708_write_reg_def Let_def split: option.split)

lemma write_regs_success:
  "fst (imx708_write_regs s regs) = 0 \<Longrightarrow>
     xfers (snd (imx708_write_regs s regs)) = xfers s @ reg_writes regs \<and>
     (\<forall>i<length regs. reply s (length (xfers s) + i) \<noteq> None)"
proof (induction regs arbitrary: s)
  case Nil
  show ?case by (simp add: reg_writes_def)
next
  case (Cons r regs)
  let ?w = "imx708_write_reg s (fst r) 1 (ucast (snd r))"
  from Cons.prems have w0: "fst ?w = 0"
    by (simp add: case_prod_beta del: write_reg_ctrl split: if_splits)
  with Cons.prems have rest: "fst (imx708_write_regs (snd ?w) regs) = 0"
    by (simp add: case_prod_beta del: write_reg_ctrl)
  have e: "imx708_write_regs s (r # regs) = imx708_write_regs (snd ?w) regs"
    using w0 by (simp add: case_prod_beta del: write_reg_ctrl)
  have x1: "xfers (snd ?w) = xfers s @ [Write (fst r) 1 (ucast (snd r))]" by simp
  have ok: "reply s (length (xfers s)) \<noteq> None" using write_reg_ok [OF _ w0] by simp
  from Cons.IH [OF rest] have
    x2: "xfers (snd (imx708_write_regs (snd ?w) regs)) = xfers (snd ?w) @ reg_writes regs @ []"
    and r2: "\<forall>i<length (reg_writes regs). reply (snd ?w) (length (xfers (snd ?w)) + i) \<noteq> None"
    by (simp_all add: reg_writes_def del: write_reg_ctrl)
  have r5: "reply (snd (imx708_write_regs (snd ?w) regs)) = reply (snd ?w)"
    by (rule advances_fields(3) [OF write_regs_advances])
  from logged_at_step [OF x1 write_reg_reply ok x2 r5 r2]
  show ?case unfolding e by (simp add: reg_writes_def del: write_reg_ctrl)
qed

lemma pdaf_write_loop_advances: "advances s (snd (pdaf_write_loop s base gains idxs))"
proof (induction idxs arbitrary: s)
  case Nil
  show ?case by simp
next
  case (Cons i idxs)
  let ?w = "imx708_write_reg s (base + of_nat i) IMX708_REG_VALUE_08BIT (ucast (gains ! (i mod 9)))"
  show ?case
    using write_reg_advances [of s "base + of_nat i" IMX708_REG_VALUE_08BIT "ucast (gains ! (i mod 9))"]
      Cons.IH [of "snd ?w"]
    by (auto simp add: case_prod_beta simp del: write_reg_ctrl intro: advances_trans)
qed

lemma pdaf_write_loop_flag:
  "common_regs_written (snd (pdaf_write_loop s base gains idxs)) = common_regs_written s"
proof (induction idxs arbitrary: s)
  case Nil
  show ?case by simp
next
  case (Cons i idxs)
  let ?w = "imx708_write_reg s (base + of_nat i) IMX708_REG_VALUE_08BIT (ucast (gains ! (i mod 9)))"
  show ?case
    using write_reg_flag [of s "base + of_nat i" IMX708_REG_VALUE_08BIT "ucast (gains ! (i mod 9))"]
      Cons.IH [of "snd ?w"]
    by (simp add: case_prod_beta del: write_reg_ctrl)
qed

lemma pdaf_write_loop_fail:
  "fst (pdaf_write_loop s base gains idxs) \<noteq> 0 \<Longrightarrow>
     fst (pdaf_write_loop s base gains idxs) = - EIO \<and>
     io_failed (snd (pdaf_write_loop s base gains idxs))"
proof (induction idxs arbitrary: s)
  case Nil
  then show ?case by simp
next
  case (Cons i idxs)
  let ?w = "imx708_write_reg s (base + of_nat i) IMX708_REG_VALUE_08BIT (ucast (gains ! (i mod 9)))"
  show ?case
  proof (cases "fst ?w = 0")
    case True
    with Cons.prems Cons.IH [of "snd ?w"] show ?thesis
      by (simp add: case_prod_beta del: write_reg_ctrl)
  next
    case False
    with write_reg_fail [of IMX708_REG_VALUE_08BIT s "base + of_nat i" "ucast (gains ! (i mod 9))"]
    show ?thesis by (simp add: case_prod_beta reg_defs del: write_reg_ctrl)
  qed
qed

lemma pdaf_write_loop_success:
  "fst (pdaf_write_loop s base gains idxs) = 0 \<Longrightarrow>
     xfers (snd (pdaf_write_loop s base gains idxs)) = xfers s @ pdaf_writes base gains idxs \<and>
     (\<forall>i<length idxs. reply s (length (xfers s) + i) \<noteq> None)"
proof (induction idxs arbitrary: s)
  case Nil
  show ?case by (simp add: pdaf_writes_def)
next
  case (Cons i idxs)
  let ?x = "Write (base + of_nat i) IMX708_REG_VALUE_08BIT (ucast (gains ! (i mod 9)))"
  let ?w = "imx708_write_reg s (base + of_nat i) IMX708_REG_VALUE_08BIT (ucast (gains ! (i mod 9)))"
  from Cons.prems have w0: "fst ?w = 0"
    by (simp add: case_prod_beta del: write_reg_ctrl split: if_splits)
  with Cons.prems have rest: "fst (pdaf_write_loop (snd ?w) base gains idxs) = 0"
    by (simp add: case_prod_beta del: write_reg_ctrl)
  have e: "pdaf_write_loop s base gains (i # idxs) = pdaf_write_loop (snd ?w) base gains idxs"
    using w0 by (simp add: case_prod_beta del: write_reg_ctrl)
  have x1: "xfers (snd ?w) = xfers s @ [?x]" by (simp add: reg_defs)
  have ok: "reply s (length (xfers s)) \<noteq> None" using write_reg_ok [OF _ w0] by (simp add: reg_defs)
  from Cons.IH [OF rest] have
    x2: "xfers (snd (pdaf_write_loop (snd ?w) base gains idxs)) =
           xfers (snd ?w) @ pdaf_writes base gains idxs @ []"
    and r2: "\<forall>j<length (pdaf_writes base gains idxs). reply (snd ?w) (length (xfers (snd ?w)) + j) \<noteq> None"
    by (simp_all add: pdaf_writes_def del: write_reg_ctrl)
  have r5: "reply (snd (pdaf_write_loop (snd ?w) base gains idxs)) = reply (snd ?w)"
    by (rule advances_fields(3) [OF pdaf_write_loop_advances])
  from logged_at_step [OF x1 write_reg_reply ok x2 r5 r2]
  show ?case unfolding e by (simp add: pdaf_writes_def del: write_reg_ctrl)
qed

lemma logged_at_concat:
  assumes "logged_at s n p" and "logged_at s (n + length p) q"
  shows "logged_at s n (p @ q)"
proof -
  from assms have p: "take (length p) (drop n (xfers s)) = p"
    and q: "take (length q) (drop (n + length p) (xfers s)) = q"
    and rp: "\<forall>i<length p. reply s (n + i) \<noteq> None"
    and rq: "\<forall>i<length q. reply s (n + length p + i) \<noteq> None"
    by (simp_all add: logged_at_iff)
  have "take (length p + length q) (drop n (xfers s)) =
        take (length p) (drop n (xfers s)) @ take (length q) (drop (length p) (drop n (xfers s)))"
    by (rule take_add)
  with p q have t: "take (length (p @ q)) (drop n (xfers s)) = p @ q"
    by (simp add: add.commute)
  have "\<forall>i<length (p @ q). reply s (n + i) \<noteq> None"
  proof (intro allI impI)
    fix i assume i: "i < length (p @ q)"
    show "reply s (n + i) \<noteq> None"
    proof (cases "i < length p")
      case True
      with rp show ?thesis by blast
    next
      case False
      with i have "i - length p < length q" by simp
      with rq have "reply s (n + length p + (i - length p)) \<noteq> None" by blast
      with False show ?thesis by simp
    qed
  qed
  with t show ?thesis by (simp add: logged_at_iff)
qed

lemma read_reg_ok:
  assumes "len \<le> 4" and "fst (imx708_read_reg s reg len) = 0"
  shows "xfers (snd (snd (imx708_read_reg s reg len))) = xfers s @ [Read reg len]"
    and "\<exists>v. reply s (length (xfers s)) = Some v \<and> fst (snd (imx708_read_reg s reg len)) = take_bit (8 * len) v"
  using assms
  by (auto simp add: imx708_read_reg_def Let_def EIO_def split: option.splits)

lemma read_reg_reply [simp]: "reply (snd (snd (imx708_read_reg s reg len))) = reply s"
  by (simp add: imx708_read_reg_def Let_def split: option.split)

lemma pdaf_patch_advances: "advances s (snd (pdaf_patch s))"
proof -
  let ?p1 = "pdaf_write_loop s IMX708_REG_BASE_SPC_GAINS_L (pdaf_gains ! 0) [0..<54]"
  let ?p2 = "pdaf_write_loop (snd ?p1) IMX708_REG_BASE_SPC_GAINS_R (pdaf_gains ! 1) [0..<54]"
  have 1: "advances s (snd ?p1)" by (rule pdaf_write_loop_advances)
  have 2: "advances s (snd ?p2)" by (rule advances_trans [OF 1 pdaf_write_loop_advances])
  show ?thesis unfolding pdaf_patch_def Let_def using 1 2 by simp
qed

lemma pdaf_patch_flag: "common_regs_written (snd (pdaf_patch s)) = common_regs_written s"
  unfolding pdaf_patch_def Let_def by (simp add: pdaf_write_loop_flag)

lemma pdaf_patch_fail:
  "fst (pdaf_patch s) \<noteq> 0 \<Longrightarrow> fst (pdaf_patch s) = - EIO \<and> io_failed (snd (pdaf_patch s))"
  unfolding pdaf_patch_def Let_def using pdaf_write_loop_fail by (auto split: if_splits)

lemma pdaf_patch_success:
  assumes "fst (pdaf_patch s) = 0"
  shows "logged_at (snd (pdaf_patch s)) (length (xfers s))
           (pdaf_writes IMX708_REG_BASE_SPC_GAINS_L (pdaf_gains ! 0) [0..<54] @
            pdaf_writes IMX708_REG_BASE_SPC_GAINS_R (pdaf_gains ! 1) [0..<54])"
proof -
  let ?p1 = "pdaf_write_loop s IMX708_REG_BASE_SPC_GAINS_L (pdaf_gains ! 0) [0..<54]"
  let ?p2 = "pdaf_write_loop (snd ?p1) IMX708_REG_BASE_SPC_GAINS_R (pdaf_gains ! 1) [0..<54]"
  from assms have p1: "fst ?p1 = 0" and e: "pdaf_patch s = ?p2"
    by (simp_all add: pdaf_patch_def Let_def split: if_splits)
  with assms have p2: "fst ?p2 = 0" by simp
  note s1 = pdaf_write_loop_success [OF p1]
  note s2 = pdaf_write_loop_success [OF p2]
  have r1: "reply (snd ?p1) = reply s" by (rule advances_fields(3) [OF pdaf_write_loop_advances])
  have r2: "reply (snd ?p2) = reply (snd ?p1)" by (rule advances_fields(3) [OF pdaf_write_loop_advances])
  have a: "logged_at (snd ?p1) (length (xfers s)) (pdaf_writes IMX708_REG_BASE_SPC_GAINS_L (pdaf_gains ! 0) [0..<54])"
    by (rule logged_atI [where l = "[]"]) (use s1 r1 in \<open>simp_all add: pdaf_writes_def\<close>)
  have a': "logged_at (snd ?p2) (length (xfers s)) (pdaf_writes IMX708_REG_BASE_SPC_GAINS_L (pdaf_gains ! 0) [0..<54])"
    by (rule logged_at_append [OF a _ r2]) (use s2 in simp)
  have b: "logged_at (snd ?p2) (length (xfers (snd ?p1))) (pdaf_writes IMX708_REG_BASE_SPC_GAINS_R (pdaf_gains ! 1) [0..<54])"
    by (rule logged_atI [where l = "[]"]) (use s2 r2 in \<open>simp_all add: pdaf_writes_def\<close>)
  have len: "length (xfers (snd ?p1)) =
             length (xfers s) + length (pdaf_writes IMX708_REG_BASE_SPC_GAINS_L (pdaf_gains ! 0) [0..<54])"
    using s1 by simp
  show ?thesis unfolding e
    by (rule logged_at_concat [OF a']) (use b len in simp)
qed

lemma write_common_regs_unfold:
  "write_common_regs s =
     (let w = imx708_write_regs s mode_common_regs in
      if fst w \<noteq> 0 then w
      else
        let r = imx708_read_reg (snd w) IMX708_REG_BASE_SPC_GAINS_L IMX708_REG_VALUE_08BIT;
            p = (if fst r = 0 \<and> fst (snd r) = 0x40 then pdaf_patch (snd (snd r))
                 else (fst r, snd (snd r)))
        in if fst p \<noteq> 0 then p else (0, (snd p)\<lparr>common_regs_written := True\<rparr>))"
  by (simp add: write_common_regs_def pdaf_patch_def Let_def case_prod_beta)

lemma flag_advances [simp]: "advances s (s\<lparr>common_regs_written := f\<rparr>)"
  by (simp add: advances_def)

lemma write_common_regs_advances: "advances s (snd (write_common_regs s))"
proof -
  let ?w = "imx708_write_regs s mode_common_regs"
  let ?r = "imx708_read_reg (snd ?w) IMX708_REG_BASE_SPC_GAINS_L IMX708_REG_VALUE_08BIT"
  have 1: "advances s (snd ?w)" by (rule write_regs_advances)
  have 2: "advances s (snd (snd ?r))" by (rule advances_trans [OF 1 read_reg_advances])
  have 3: "advances s (snd (pdaf_patch (snd (snd ?r))))"
    by (rule advances_trans [OF 2 pdaf_patch_advances])
  have 4: "advances s ((snd (snd ?r))\<lparr>common_regs_written := True\<rparr>)"
    by (rule advances_trans [OF 2 flag_advances])
  have 5: "advances s ((snd (pdaf_patch (snd (snd ?r))))\<lparr>common_regs_written := True\<rparr>)"
    by (rule advances_trans [OF 3 flag_advances])
  show ?thesis
    unfolding write_common_regs_unfold Let_def using 1 2 3 4 5 by simp
qed

lemma write_common_regs_fail:
  assumes "fst (write_common_regs s) \<noteq> 0"
  shows "fst (write_common_regs s) = - EIO \<and> io_failed (snd (write_common_regs s)) \<and>
         common_regs_written (snd (write_common_regs s)) = common_regs_written s"
proof -
  let ?w = "imx708_write_regs s mode_common_regs"
  let ?r = "imx708_read_reg (snd ?w) IMX708_REG_BASE_SPC_GAINS_L IMX708_REG_VALUE_08BIT"
  have fw: "common_regs_written (snd ?w) = common_regs_written s" by (rule write_regs_flag)
  have fr: "common_regs_written (snd (snd ?r)) = common_regs_written s"
    by (simp add: read_reg_flag fw)
  have fp: "common_regs_written (snd (pdaf_patch (snd (snd ?r)))) = common_regs_written s"
    by (simp add: pdaf_patch_flag fr)
  show ?thesis
  proof (cases "fst ?w \<noteq> 0")
    case True
    with write_regs_io_failed [OF True] fw show ?thesis
      unfolding write_common_regs_unfold Let_def by simp
  next
    case w0: False
    show ?thesis
    proof (cases "fst ?r = 0 \<and> fst (snd ?r) = 0x40")
      case True
      with w0 assms have "fst (pdaf_patch (snd (snd ?r))) \<noteq> 0"
        unfolding write_common_regs_unfold Let_def by (simp split: if_splits)
      with pdaf_patch_fail [OF this] w0 True fp show ?thesis
        unfolding write_common_regs_unfold Let_def by simp
    next
      case False
      with w0 assms have r: "fst ?r \<noteq> 0"
        unfolding write_common_regs_unfold Let_def by (simp split: if_splits)
      from read_reg_io_failed [OF r] w0 False r fr show ?thesis
        unfolding write_common_regs_unfold Let_def by (simp add: reg_defs)
    qed
  qed
qed

lemma write_common_regs_success:
  assumes "fst (write_common_regs s) = 0"
  shows "calibration_sequence (snd (write_common_regs s)) (length (xfers s))"
    and "common_regs_written (snd (write_common_regs s))"
proof -
  let ?w = "imx708_write_regs s mode_common_regs"
  let ?r = "imx708_read_reg (snd ?w) IMX708_REG_BASE_SPC_GAINS_L IMX708_REG_VALUE_08BIT"
  let ?sr = "snd (snd ?r)"
  let ?rd = "Read IMX708_REG_BASE_SPC_GAINS_L IMX708_REG_VALUE_08BIT"
  let ?n = "length (xfers s)"
  let ?k = "length mode_common_regs"
  from assms have w0: "fst ?w = 0"
    unfolding write_common_regs_unfold Let_def by (simp split: if_splits)
  have r0: "fst ?r = 0"
  proof (rule ccontr)
    assume "fst ?r \<noteq> 0"
    with assms w0 show False unfolding write_common_regs_unfold Let_def by simp
  qed
  note ws = write_regs_success [OF w0]
  have rw: "reply (snd ?w) = reply s" by (rule advances_fields(3) [OF write_regs_advances])
  have xr: "xfers ?sr = xfers (snd ?w) @ [?rd]"
    by (rule read_reg_ok(1) [OF _ r0]) (simp add: reg_defs)
  from read_reg_ok(2) [OF _ r0] obtain v where
    v: "reply (snd ?w) (length (xfers (snd ?w))) = Some v" "fst (snd ?r) = take_bit 8 v"
    by (auto simp add: reg_defs)
  have lenw: "length (xfers (snd ?w)) = ?n + ?k" using ws by (simp add: reg_writes_def)
  have rk: "reply s (?n + ?k) = Some v" using v(1) rw lenw by simp
  have a: "logged_at ?sr ?n (reg_writes mode_common_regs @ [?rd])"
  proof (rule logged_atI [where l = "[]"])
    show "xfers ?sr = xfers s @ (reg_writes mode_common_regs @ [?rd]) @ []"
      using xr ws by simp
    show "reply ?sr = reply s" using rw by simp
    show "\<forall>i<length (reg_writes mode_common_regs @ [?rd]). reply s (?n + i) \<noteq> None"
    proof (intro allI impI)
      fix i assume "i < length (reg_writes mode_common_regs @ [?rd])"
      then have "i < ?k \<or> i = ?k" by (auto simp add: reg_writes_def)
      with ws rk show "reply s (?n + i) \<noteq> None" by auto
    qed
  qed
  have lenr: "length (xfers ?sr) = ?n + ?k + 1" using xr lenw by simp
  show "common_regs_written (snd (write_common_regs s))"
    using assms w0 unfolding write_common_regs_unfold Let_def by (simp split: if_splits)
  show "calibration_sequence (snd (write_common_regs s)) ?n"
  proof (cases "fst (snd ?r) = 0x40")
    case True
    let ?p = "pdaf_patch ?sr"
    from assms w0 r0 True have p0: "fst ?p = 0"
      unfolding write_common_regs_unfold Let_def by (simp split: if_splits)
    have e: "snd (write_common_regs s) = (snd ?p)\<lparr>common_regs_written := True\<rparr>"
      using w0 r0 True p0 unfolding write_common_regs_unfold Let_def by simp
    have ap: "advances ?sr (snd ?p)" by (rule pdaf_patch_advances)
    from advances_fields(13) [OF ap] obtain l where l: "xfers (snd ?p) = xfers ?sr @ l" ..
    have rp: "reply (snd ?p) = reply ?sr" by (rule advances_fields(3) [OF ap])
    have a': "logged_at (snd ?p) ?n (reg_writes mode_common_regs @ [?rd])"
      by (rule logged_at_append [OF a l rp])
    have b: "logged_at (snd ?p) (?n + ?k + 1)
           (pdaf_writes IMX708_REG_BASE_SPC_GAINS_L (pdaf_gains ! 0) [0..<54] @
            pdaf_writes IMX708_REG_BASE_SPC_GAINS_R (pdaf_gains ! 1) [0..<54])"
      using pdaf_patch_success [OF p0] lenr by simp
    have rk': "reply (snd ?p) (?n + ?k) = Some v" using rk rp rw by simp
    show ?thesis
      unfolding e calibration_sequence_def
      using a' b rk' True v(2) by (simp add: logged_at_def)
  next
    case False
    have e: "snd (write_common_regs s) = ?sr\<lparr>common_regs_written := True\<rparr>"
      using w0 r0 False unfolding write_common_regs_unfold Let_def by simp
    have rk': "reply ?sr (?n + ?k) = Some v" using rk rw by simp
    show ?thesis
      unfolding e calibration_sequence_def
      using a rk' False v(2) by (simp add: logged_at_def)
  qed
qed

subsection \<open>Starting the stream\<close>

lemma start_streaming_unfold:
  "imx708_start_streaming s =
     (let c = (if \<not> common_regs_written s then write_common_regs s else (0, s)) in
      if fst c \<noteq> 0 then c
      else
        let m = imx708_write_regs (snd c) (reg_list (cur_mode (snd c))) in
        if fst m \<noteq> 0 then m
        else
          let f = imx708_write_regs (snd m) (link_freq_regs ! link_freq_idx (snd m)) in
          if fst f \<noteq> 0 then f
          else
            let h = v4l2_ctrl_handler_setup (snd f) in
            if fst h \<noteq> 0 then h
            else imx708_write_reg (snd h) IMX708_REG_MODE_SELECT IMX708_REG_VALUE_08BIT
                   IMX708_MODE_STREAMING)"
  by (simp add: imx708_start_streaming_def Let_def case_prod_beta del: write_reg_ctrl)

lemma start_streaming_props:
  shows start_streaming_advances: "advances s (snd (imx708_start_streaming s))"
    and start_streaming_fail:
      "fst (imx708_start_streaming s) = - EIO \<Longrightarrow> io_failed (snd (imx708_start_streaming s))"
    and start_streaming_flag:
      "\<not> common_regs_written s \<Longrightarrow> common_regs_written (snd (imx708_start_streaming s)) \<Longrightarrow>
         calibration_sequence (snd (imx708_start_streaming s)) (length (xfers s))"
proof -
  define c where "c = (if \<not> common_regs_written s then write_common_regs s else (0, s))"
  define m where "m = imx708_write_regs (snd c) (reg_list (cur_mode (snd c)))"
  define f where "f = imx708_write_regs (snd m) (link_freq_regs ! link_freq_idx (snd m))"
  define h where "h = v4l2_ctrl_handler_setup (snd f)"
  define e where "e = imx708_write_reg (snd h) IMX708_REG_MODE_SELECT IMX708_REG_VALUE_08BIT
                   IMX708_MODE_STREAMING"
  have u: "imx708_start_streaming s =
             (if fst c \<noteq> 0 then c else if fst m \<noteq> 0 then m else if fst f \<noteq> 0 then f
              else if fst h \<noteq> 0 then h else e)"
    unfolding start_streaming_unfold Let_def c_def m_def f_def h_def e_def by simp
  have ac: "advances s (snd c)" by (simp add: c_def write_common_regs_advances)
  have cm: "advances (snd c) (snd m)" unfolding m_def by (rule write_regs_advances)
  have mf: "advances (snd m) (snd f)" unfolding f_def by (rule write_regs_advances)
  have fh: "advances (snd f) (snd h)"
    unfolding h_def v4l2_ctrl_handler_setup_def by (rule ctrl_replay_advances)
  have he: "advances (snd h) (snd e)" unfolding e_def by (rule write_reg_advances)
  note am = advances_trans [OF ac cm]
  note af = advances_trans [OF am mf]
  note ah = advances_trans [OF af fh]
  note ae = advances_trans [OF ah he]
  show "advances s (snd (imx708_start_streaming s))"
    unfolding u using ac am af ah ae by simp
  show "io_failed (snd (imx708_start_streaming s))" if "fst (imx708_start_streaming s) = - EIO"
  proof -
    have 1: "fst c \<noteq> 0 \<Longrightarrow> io_failed (snd c)"
      using write_common_regs_fail [of s] by (simp add: c_def split: if_splits)
    have 2: "fst m \<noteq> 0 \<Longrightarrow> io_failed (snd m)"
      unfolding m_def using write_regs_io_failed by blast
    have 3: "fst f \<noteq> 0 \<Longrightarrow> io_failed (snd f)"
      unfolding f_def using write_regs_io_failed by blast
    have 4: "fst h = - EIO \<Longrightarrow> io_failed (snd h)"
      unfolding h_def v4l2_ctrl_handler_setup_def by (rule ctrl_replay_fail)
    have 5: "fst e = - EIO \<Longrightarrow> io_failed (snd e)"
      unfolding e_def by (rule write_reg_io_failed)
    from that 1 2 3 4 5 show ?thesis unfolding u by (simp split: if_splits)
  qed
  show "calibration_sequence (snd (imx708_start_streaming s)) (length (xfers s))"
    if nf: "\<not> common_regs_written s" and fl: "common_regs_written (snd (imx708_start_streaming s))"
  proof -
    have fm: "common_regs_written (snd m) = common_regs_written (snd c)"
      unfolding m_def by (rule write_regs_flag)
    have ff: "common_regs_written (snd f) = common_regs_written (snd c)"
      unfolding f_def by (simp add: write_regs_flag fm)
    have fh': "common_regs_written (snd h) = common_regs_written (snd c)"
      unfolding h_def v4l2_ctrl_handler_setup_def by (simp add: ctrl_replay_flag ff)
    have fe: "common_regs_written (snd e) = common_regs_written (snd c)"
      unfolding e_def by (simp add: write_reg_flag fh')
    from fl have fc: "common_regs_written (snd c)"
      unfolding u using fm ff fh' fe by (simp split: if_splits)
    have c0: "fst c = 0"
    proof (rule ccontr)
      assume "fst c \<noteq> 0"
      with write_common_regs_fail [of s] nf fc show False by (simp add: c_def)
    qed
    then have cal: "calibration_sequence (snd c) (length (xfers s))"
      using write_common_regs_success(1) [of s] nf by (simp add: c_def)
    have stable: "calibration_sequence s' (length (xfers s))" if "advances (snd c) s'" for s'
    proof -
      from advances_fields(13) [OF that] obtain l where l: "xfers s' = xfers (snd c) @ l" ..
      show ?thesis
        by (rule calibration_sequence_append [OF cal l advances_fields(3) [OF that]])
    qed
    have "advances (snd c) (snd c)" by simp
    moreover note cm
    moreover have "advances (snd c) (snd f)" by (rule advances_trans [OF cm mf])
    moreover have "advances (snd c) (snd h)" by (rule advances_trans [OF advances_trans [OF cm mf] fh])
    moreover have "advances (snd c) (snd e)"
      by (rule advances_trans [OF advances_trans [OF advances_trans [OF cm mf] fh] he])
    ultimately show ?thesis unfolding u using stable by simp
  qed
qed


subsection \<open>Stopping at the first failed transaction\<close>























subsection \<open>The calibration flag\<close>













subsection \<open>Vblank and the exposure range\<close>

lemma set_ctrl_apply_ctrl: "ctrl (snd (set_ctrl_apply s cid)) = ctrl s"
proof -
  have fl: "ctrl (snd (imx708_set_frame_length s v)) = ctrl s" for s v
    by (simp add: imx708_set_frame_length_def case_prod_beta Let_def reg_defs)
  show ?thesis
    by (cases cid)
       (simp_all add: set_ctrl_apply_def Let_def imx708_set_analogue_gain_def
          imx708_set_exposure_def fl reg_defs)
qed

lemma set_ctrl_vblank_ctrl:
  "ctrl (snd (imx708_set_ctrl s V4L2_CID_VBLANK)) = ctrl (imx708_adjust_exposure_range s)"
  by (simp add: set_ctrl_unfold Let_def pm_runtime_put_def set_ctrl_apply_ctrl)

text \<open>
  Claim C2. When the vblank control is applied with a value in the mode's legal range
  \<open>[vblank_min, 2 ^ 7 * 0xFFFF - height]\<close>, the exposure control gets the maximum
  \<open>height + vblank - 48\<close> and the default \<open>min (previous exposure value) (new maximum)\<close>,
  whether or not power is in use; its minimum, step and value are unchanged.
\<close>

theorem vblank_change_exposure_range:
  assumes "uint (vblank_min (cur_mode s)) \<le> sint (val (ctrl s V4L2_CID_VBLANK))"
    and "sint (val (ctrl s V4L2_CID_VBLANK)) \<le>
           2 ^ IMX708_LONG_EXP_SHIFT_MAX * 0xFFFF - uint (height (cur_mode s))"
  shows "let e = ctrl (snd (imx708_set_ctrl s V4L2_CID_VBLANK)) V4L2_CID_EXPOSURE in
           maximum e = uint (height (cur_mode s)) + sint (val (ctrl s V4L2_CID_VBLANK)) - 48 \<and>
           default_value e = min (sint (val (ctrl s V4L2_CID_EXPOSURE))) (maximum e) \<and>
           minimum e = minimum (ctrl s V4L2_CID_EXPOSURE) \<and>
           step e = step (ctrl s V4L2_CID_EXPOSURE) \<and>
           val e = val (ctrl s V4L2_CID_EXPOSURE)"
proof -
  have "0 \<le> uint (vblank_min (cur_mode s))" by simp
  with assms(1) have nn: "0 \<le> sint (val (ctrl s V4L2_CID_VBLANK))" by linarith
  from assms(2) have le: "uint (height (cur_mode s)) + sint (val (ctrl s V4L2_CID_VBLANK)) \<le> 2 ^ 7 * 65535"
    by (simp add: IMX708_LONG_EXP_SHIFT_MAX_def)
  note mx = exposure_max_exact [OF nn le]
  show ?thesis
    unfolding set_ctrl_vblank_ctrl
    by (simp add: imx708_adjust_exposure_range_def Let_def v4l2_ctrl_modify_range_def
          sint_min_s32 mx min.commute)
qed

theorem vblank_change_exposure_range_witness:
  "uint (vblank_min (cur_mode vblank_1198_device)) \<le> sint (val (ctrl vblank_1198_device V4L2_CID_VBLANK)) \<and>
   sint (val (ctrl vblank_1198_device V4L2_CID_VBLANK)) \<le>
     2 ^ IMX708_LONG_EXP_SHIFT_MAX * 0xFFFF - uint (height (cur_mode vblank_1198_device)) \<and>
   maximum (ctrl (snd (imx708_set_ctrl vblank_1198_device V4L2_CID_VBLANK)) V4L2_CID_EXPOSURE) = 2230 \<and>
   default_value (ctrl (snd (imx708_set_ctrl vblank_1198_device V4L2_CID_VBLANK)) V4L2_CID_EXPOSURE) = 1600"
proof -
  have h1: "uint (vblank_min (cur_mode vblank_1198_device)) \<le> sint (val (ctrl vblank_1198_device V4L2_CID_VBLANK))"
    by code_simp
  have h2: "sint (val (ctrl vblank_1198_device V4L2_CID_VBLANK)) \<le>
     2 ^ IMX708_LONG_EXP_SHIFT_MAX * 0xFFFF - uint (height (cur_mode vblank_1198_device))"
    by code_simp
  have v: "uint (height (cur_mode vblank_1198_device)) = 1080"
    "sint (val (ctrl vblank_1198_device V4L2_CID_VBLANK)) = 1198"
    "sint (val (ctrl vblank_1198_device V4L2_CID_EXPOSURE)) = 1600"
    by code_simp+
  from vblank_change_exposure_range [OF h1 h2] h1 h2 show ?thesis
    unfolding Let_def v by simp
qed

subsection \<open>Frame length and long-exposure shift\<close>

text \<open>
  Claim C3. The frame length is set by applying the vblank control while power is in
  use: the total is \<open>height + vblank\<close>. For every vblank value in the mode's legal range
  \<open>[vblank_min, 2 ^ 7 * 0xFFFF - height]\<close> the total is computed without wrapping, the
  number of halvings is stored in \<open>long_exp_shift\<close>, the halved value is written to the
  16-bit frame-length register and then, unless that write failed, the shift to its own
  register; the return code is \<open>- EIO\<close> when either write fails and 0 otherwise. The
  written value fits in 16 bits and the shift is the least number of halvings that makes
  it fit; a total of at most \<open>0xFFFF\<close> is written unchanged with shift 0; the shift is at
  most \<open>IMX708_LONG_EXP_SHIFT_MAX = 7\<close>; and the written value times \<open>2 ^ shift\<close> lies
  in \<open>[total - 2 ^ shift + 1, total]\<close>.
\<close>

theorem set_frame_length_shift_encoding:
  assumes "usage_count s \<noteq> 0"
    and "uint (vblank_min (cur_mode s)) \<le> sint (val (ctrl s V4L2_CID_VBLANK))"
    and "sint (val (ctrl s V4L2_CID_VBLANK)) \<le>
           2 ^ IMX708_LONG_EXP_SHIFT_MAX * 0xFFFF - uint (height (cur_mode s))"
    and "imx708_set_ctrl s V4L2_CID_VBLANK = (ret, s')"
  shows "let total = height (cur_mode s) + val (ctrl s V4L2_CID_VBLANK);
             n = unat (long_exp_shift s');
             w = drop_bit n total
         in uint total = uint (height (cur_mode s)) + sint (val (ctrl s V4L2_CID_VBLANK)) \<and>
            xfers s' = xfers s @ Write IMX708_REG_FRAME_LENGTH IMX708_REG_VALUE_16BIT w #
              (if reply s (length (xfers s)) = None then []
               else [Write IMX708_LONG_EXP_SHIFT_REG IMX708_REG_VALUE_08BIT (long_exp_shift s')]) \<and>
            ret = (if reply s (length (xfers s)) = None \<or> reply s (Suc (length (xfers s))) = None
                   then - EIO else 0) \<and>
            w \<le> 0xFFFF \<and>
            (\<forall>k<n. 0xFFFF < drop_bit k total) \<and>
            (total \<le> 0xFFFF \<longrightarrow> long_exp_shift s' = 0 \<and> w = total) \<and>
            n \<le> IMX708_LONG_EXP_SHIFT_MAX \<and>
            unat w * 2 ^ n \<le> unat total \<and>
            unat total + 1 \<le> unat w * 2 ^ n + 2 ^ n"
proof -
  define total where "total = height (cur_mode s) + val (ctrl s V4L2_CID_VBLANK)"
  define s1 where "s1 = (imx708_adjust_exposure_range s)\<lparr>usage_count := usage_count s + 1\<rparr>"
  define r where "r = imx708_set_frame_length s1 total"
  have "0 \<le> uint (vblank_min (cur_mode s))" by simp
  with assms(2) have nn: "0 \<le> sint (val (ctrl s V4L2_CID_VBLANK))" by linarith
  from assms(3) have le: "uint (height (cur_mode s)) + sint (val (ctrl s V4L2_CID_VBLANK)) \<le> 2 ^ 7 * 65535"
    by (simp add: IMX708_LONG_EXP_SHIFT_MAX_def)
  have tot: "uint total = uint (height (cur_mode s)) + sint (val (ctrl s V4L2_CID_VBLANK))"
    unfolding total_def by (rule total_exact [OF nn le])
  with le have "uint total \<le> 8388480" by simp
  then have "int (unat total) \<le> 8388480" by simp
  then have "unat total \<le> 8388480" by linarith
  then have cap: "unat total \<le> 2 ^ IMX708_LONG_EXP_SHIFT_MAX * 0xFFFF"
    by (simp add: IMX708_LONG_EXP_SHIFT_MAX_def)
  have x1: "xfers s1 = xfers s" "reply s1 = reply s"
    by (simp_all add: s1_def adjust_exposure_range_fields)
  have e: "imx708_set_ctrl s V4L2_CID_VBLANK = (fst r, pm_runtime_put (snd r))"
    using assms(1)
    by (simp add: set_ctrl_unfold Let_def set_ctrl_apply_def adjust_exposure_range_fields
          r_def s1_def total_def)
  with assms(4) have ret: "ret = fst r" and s': "s' = pm_runtime_put (snd r)" by simp_all
  have sh: "long_exp_shift s' = long_exp_shift (snd r)" and xs: "xfers s' = xfers (snd r)"
    by (simp_all add: s' pm_runtime_put_def)
  have "imx708_set_frame_length s1 total = (fst r, snd r)" by (simp add: r_def)
  note enc = set_frame_length_encoding [OF this, unfolded Let_def x1]
  have n7: "unat (long_exp_shift (snd r)) \<le> IMX708_LONG_EXP_SHIFT_MAX"
    using enc cap by blast
  show ?thesis
    unfolding Let_def total_def [symmetric] sh xs ret
    using enc n7 tot by blast
qed

theorem set_frame_length_shift_witness:
  "usage_count max_vblank_device \<noteq> 0 \<and>
   uint (vblank_min (cur_mode max_vblank_device)) \<le> sint (val (ctrl max_vblank_device V4L2_CID_VBLANK)) \<and>
   sint (val (ctrl max_vblank_device V4L2_CID_VBLANK)) \<le>
     2 ^ IMX708_LONG_EXP_SHIFT_MAX * 0xFFFF - uint (height (cur_mode max_vblank_device)) \<and>
   height (cur_mode max_vblank_device) + val (ctrl max_vblank_device V4L2_CID_VBLANK) = 8388480 \<and>
   fst (imx708_set_ctrl max_vblank_device V4L2_CID_VBLANK) = 0 \<and>
   long_exp_shift (snd (imx708_set_ctrl max_vblank_device V4L2_CID_VBLANK)) = 7 \<and>
   xfers (snd (imx708_set_ctrl max_vblank_device V4L2_CID_VBLANK)) =
     [Write IMX708_REG_FRAME_LENGTH IMX708_REG_VALUE_16BIT 65535,
      Write IMX708_LONG_EXP_SHIFT_REG IMX708_REG_VALUE_08BIT 7]"
proof -
  let ?r = "imx708_set_ctrl max_vblank_device V4L2_CID_VBLANK"
  have h1: "usage_count max_vblank_device \<noteq> 0" by code_simp
  have h2: "uint (vblank_min (cur_mode max_vblank_device)) \<le>
              sint (val (ctrl max_vblank_device V4L2_CID_VBLANK))"
    by code_simp
  have h3: "sint (val (ctrl max_vblank_device V4L2_CID_VBLANK)) \<le>
              2 ^ IMX708_LONG_EXP_SHIFT_MAX * 0xFFFF - uint (height (cur_mode max_vblank_device))"
    by code_simp
  have t: "height (cur_mode max_vblank_device) + val (ctrl max_vblank_device V4L2_CID_VBLANK) = 8388480"
    by code_simp
  have ret: "fst ?r = 0" by code_simp
  have sh: "long_exp_shift (snd ?r) = 7" by code_simp
  have log: "xfers (snd ?r) =
     [Write IMX708_REG_FRAME_LENGTH IMX708_REG_VALUE_16BIT 65535,
      Write IMX708_LONG_EXP_SHIFT_REG IMX708_REG_VALUE_08BIT 7]"
    by code_simp
  from set_frame_length_shift_encoding [OF h1 h2 h3 surjective_pairing] h1 h2 h3 t ret sh log
  show ?thesis by simp
qed

subsection \<open>Re-entering the current streaming state\<close>

text \<open>
  Claim C5. Starting a device that is streaming (\<^verbatim>\<open>s_stream(1)\<close>) and stopping a device in
  standby (\<^verbatim>\<open>s_stream(0)\<close>) return 0 and leave the whole device, bus log included, as it
  was.
\<close>

theorem set_stream_idempotent:
  "(streaming s \<longrightarrow> imx708_set_stream s 1 = (0, s)) \<and>
   (\<not> streaming s \<longrightarrow> imx708_set_stream s 0 = (0, s))"
proof (intro conjI impI)
  assume "streaming s"
  then show "imx708_set_stream s 1 = (0, s)"
    by (simp add: imx708_set_stream_def)
next
  assume "\<not> streaming s"
  then show "imx708_set_stream s 0 = (0, s)"
    by (simp add: imx708_set_stream_def)
qed

theorem set_stream_idempotent_witness:
  "streaming ((standby_device (\<lambda>_. Some 0))\<lparr>streaming := True\<rparr>) \<and>
   imx708_set_stream ((standby_device (\<lambda>_. Some 0))\<lparr>streaming := True\<rparr>) 1 =
     (0, (standby_device (\<lambda>_. Some 0))\<lparr>streaming := True\<rparr>) \<and>
   \<not> streaming (standby_device (\<lambda>_. Some 0)) \<and>
   imx708_set_stream (standby_device (\<lambda>_. Some 0)) 0 = (0, standby_device (\<lambda>_. Some 0))"
  using set_stream_idempotent [of "(standby_device (\<lambda>_. Some 0))\<lparr>streaming := True\<rparr>"]
    set_stream_idempotent [of "standby_device (\<lambda>_. Some 0)"]
  by (simp add: standby_device_def)

subsection \<open>HDR override while streaming\<close>

text \<open>
  Claim C8 does not hold of the code: \<^verbatim>\<open>imx708_ioctl\<close> never looks at \<open>streaming\<close>. On a
  device streaming the 1920x1080 non-HDR mode, \<open>RKMODULE_SET_HDR_CFG\<close> with \<open>HDR_X3\<close>
  returns 0 and switches \<open>cur_mode\<close> to the HDR entry, while the device keeps streaming.
\<close>

theorem hdr_override_while_streaming:
  "streaming streaming_1080p_device \<and>
   hdr_mode (cur_mode streaming_1080p_device) = NO_HDR \<and>
   fst (imx708_ioctl streaming_1080p_device (RKMODULE_SET_HDR_CFG HDR_X3)) = 0 \<and>
   cur_mode (snd (imx708_ioctl streaming_1080p_device (RKMODULE_SET_HDR_CFG HDR_X3))) =
     supported_modes ! 2 \<and>
   hdr_mode (cur_mode (snd (imx708_ioctl streaming_1080p_device (RKMODULE_SET_HDR_CFG HDR_X3)))) =
     HDR_X3 \<and>
   cur_mode (snd (imx708_ioctl streaming_1080p_device (RKMODULE_SET_HDR_CFG HDR_X3))) \<noteq>
     cur_mode streaming_1080p_device \<and>
   streaming (snd (imx708_ioctl streaming_1080p_device (RKMODULE_SET_HDR_CFG HDR_X3)))"
  by code_simp

subsection \<open>Unknown control ids\<close>

text \<open>
  Claim C9, as the code has it. A control whose id is none of the handled ones leaves the
  device exactly as it was. With power in use it is rejected with \<open>- EINVAL\<close>; with power
  not in use \<^verbatim>\<open>imx708_set_ctrl\<close> returns before its second \<^verbatim>\<open>switch\<close> and reports success.
\<close>

theorem unknown_ctrl_rejected_when_in_use:
  assumes "cid \<notin> set handled_ctrls"
  shows "imx708_set_ctrl s cid = (if usage_count s = 0 then 0 else - EINVAL, s)"
  using assms
  by (cases cid)
     (simp_all add: handled_ctrls_def set_ctrl_unfold set_ctrl_apply_def pm_runtime_put_def Let_def)

theorem unknown_ctrl_rejected_witness:
  "V4L2_CID_PIXEL_RATE \<notin> set handled_ctrls \<and>
   imx708_set_ctrl ((standby_device (\<lambda>_. Some 0))\<lparr>usage_count := 1\<rparr>) V4L2_CID_PIXEL_RATE =
     (- EINVAL, (standby_device (\<lambda>_. Some 0))\<lparr>usage_count := 1\<rparr>)"
proof -
  have h: "V4L2_CID_PIXEL_RATE \<notin> set handled_ctrls" by (simp add: handled_ctrls_def)
  from unknown_ctrl_rejected_when_in_use [OF h, of "(standby_device (\<lambda>_. Some 0))\<lparr>usage_count := 1\<rparr>"] h
  show ?thesis by simp
qed

text \<open>On a device whose power is not in use an unknown id is accepted with return code 0.\<close>

theorem unknown_ctrl_counterexample:
  "V4L2_CID_OTHER 0x1234 \<notin> set handled_ctrls \<and>
   usage_count (standby_device (\<lambda>_. Some 0)) = 0 \<and>
   fst (imx708_set_ctrl (standby_device (\<lambda>_. Some 0)) (V4L2_CID_OTHER 0x1234)) = 0 \<and>
   fst (imx708_set_ctrl (standby_device (\<lambda>_. Some 0)) (V4L2_CID_OTHER 0x1234)) \<noteq> - EINVAL"
  by code_simp

subsection \<open>Transport errors of the analogue gain\<close>



subsection \<open>Best-fit mode\<close>











end
